theory Spec2Isabelle
  imports Complex_Main
begin

section \<open>Double-precision values\<close>

text \<open>
  The solver computes with C++ \<^verbatim>\<open>double\<close>.  A double is modelled as a real number or
  one of the three special values of IEEE arithmetic: the two infinities and NaN.
  Arithmetic on finite values is exact (rounding, overflow to infinity and the sign of
  zero are not modelled; a division of a non-zero finite value by zero yields the
  infinity of the sign of the dividend).  The special values follow IEEE 754: NaN
  propagates and compares false with everything, \<open>\<infinity> - \<infinity>\<close>, \<open>0 \<cdot> \<infinity>\<close>, \<open>0 / 0\<close> and
  \<open>\<infinity> / \<infinity>\<close> are NaN.
\<close>

datatype double = Fin real | PInf | NInf | NaN

fun isnan :: "double \<Rightarrow> bool" where
  "isnan NaN = True"
| "isnan _ = False"

fun isinf :: "double \<Rightarrow> bool" where
  "isinf PInf = True"
| "isinf NInf = True"
| "isinf _ = False"

fun isfinite :: "double \<Rightarrow> bool" where
  "isfinite (Fin _) = True"
| "isfinite _ = False"

text \<open>The infinity with the sign of a non-zero real.\<close>

definition inf_of_sign :: "real \<Rightarrow> double" where
  "inf_of_sign x = (if 0 \<le> x then PInf else NInf)"

instantiation double :: "{plus, minus, uminus, times, inverse, abs, ord}"
begin

fun uminus_double :: "double \<Rightarrow> double" where
  "uminus_double (Fin a) = Fin (- a)"
| "uminus_double PInf = NInf"
| "uminus_double NInf = PInf"
| "uminus_double NaN = NaN"

fun abs_double :: "double \<Rightarrow> double" where
  "abs_double (Fin a) = Fin \<bar>a\<bar>"
| "abs_double PInf = PInf"
| "abs_double NInf = PInf"
| "abs_double NaN = NaN"

fun plus_double :: "double \<Rightarrow> double \<Rightarrow> double" where
  "plus_double (Fin a) (Fin b) = Fin (a + b)"
| "plus_double NaN _ = NaN"
| "plus_double _ NaN = NaN"
| "plus_double PInf NInf = NaN"
| "plus_double NInf PInf = NaN"
| "plus_double PInf _ = PInf"
| "plus_double NInf _ = NInf"
| "plus_double _ PInf = PInf"
| "plus_double _ NInf = NInf"

definition minus_double :: "double \<Rightarrow> double \<Rightarrow> double" where
  "minus_double (a::double) b = a + (- b)"

fun times_double :: "double \<Rightarrow> double \<Rightarrow> double" where
  "times_double (Fin a) (Fin b) = Fin (a * b)"
| "times_double NaN _ = NaN"
| "times_double _ NaN = NaN"
| "times_double (Fin a) PInf = (if a = 0 then NaN else inf_of_sign a)"
| "times_double (Fin a) NInf = (if a = 0 then NaN else inf_of_sign (- a))"
| "times_double PInf (Fin b) = (if b = 0 then NaN else inf_of_sign b)"
| "times_double NInf (Fin b) = (if b = 0 then NaN else inf_of_sign (- b))"
| "times_double PInf PInf = PInf"
| "times_double NInf NInf = PInf"
| "times_double PInf NInf = NInf"
| "times_double NInf PInf = NInf"

fun divide_double :: "double \<Rightarrow> double \<Rightarrow> double" where
  "divide_double (Fin a) (Fin b) =
     (if b \<noteq> 0 then Fin (a / b) else if a = 0 then NaN else inf_of_sign a)"
| "divide_double NaN _ = NaN"
| "divide_double _ NaN = NaN"
| "divide_double (Fin a) _ = Fin 0"
| "divide_double PInf (Fin b) = inf_of_sign b"
| "divide_double NInf (Fin b) = (if 0 \<le> b then NInf else PInf)"
| "divide_double _ _ = NaN"

definition inverse_double :: "double \<Rightarrow> double" where
  "inverse_double (a::double) = Fin 1 div a"

fun less_double :: "double \<Rightarrow> double \<Rightarrow> bool" where
  "less_double (Fin a) (Fin b) = (a < b)"
| "less_double (Fin a) PInf = True"
| "less_double NInf (Fin b) = True"
| "less_double NInf PInf = True"
| "less_double _ _ = False"

fun less_eq_double :: "double \<Rightarrow> double \<Rightarrow> bool" where
  "less_eq_double (Fin a) (Fin b) = (a \<le> b)"
| "less_eq_double (Fin a) PInf = True"
| "less_eq_double NInf (Fin b) = True"
| "less_eq_double NInf PInf = True"
| "less_eq_double PInf PInf = True"
| "less_eq_double NInf NInf = True"
| "less_eq_double _ _ = False"

instance ..

end

text \<open>The comparison \<^verbatim>\<open>a == b\<close> of two doubles: NaN is not equal to itself.\<close>

definition deq :: "double \<Rightarrow> double \<Rightarrow> bool" where
  "deq a b = (\<not> isnan a \<and> a = b)"

text \<open>\<^verbatim>\<open>std::min(a, b)\<close> is \<^verbatim>\<open>(b < a) ? b : a\<close> and \<^verbatim>\<open>std::max(a, b)\<close> is
  \<^verbatim>\<open>(a < b) ? b : a\<close>.\<close>

definition dmin :: "double \<Rightarrow> double \<Rightarrow> double" where
  "dmin a b = (if b < a then b else a)"

definition dmax :: "double \<Rightarrow> double \<Rightarrow> double" where
  "dmax a b = (if a < b then b else a)"

section \<open>Thermodynamics: soft landing\<close>

text \<open>\<^verbatim>\<open>Thermodynamics::softLanding\<close> (Thermodynamics.cpp, lines 194-203).\<close>

definition softLanding :: "double \<Rightarrow> double \<Rightarrow> double \<Rightarrow> double" where
  "softLanding rate T T_min =
     (if rate < Fin 0 then
        (if T \<le> T_min then Fin 0
         else if T \<le> T_min + Fin 200 then rate * (T - T_min) / Fin 200
         else rate)
      else rate)"

section \<open>Elementary functions on doubles\<close>

text \<open>\<^verbatim>\<open>std::exp\<close>, \<^verbatim>\<open>std::log\<close>, \<^verbatim>\<open>std::log10\<close> and \<^verbatim>\<open>std::sqrt\<close> with their values at
  the special arguments.\<close>

fun dexp :: "double \<Rightarrow> double" where
  "dexp (Fin x) = Fin (exp x)"
| "dexp PInf = PInf"
| "dexp NInf = Fin 0"
| "dexp NaN = NaN"

fun dlog :: "double \<Rightarrow> double" where
  "dlog (Fin x) = (if 0 < x then Fin (ln x) else if x = 0 then NInf else NaN)"
| "dlog PInf = PInf"
| "dlog NInf = NaN"
| "dlog NaN = NaN"

fun dlog10 :: "double \<Rightarrow> double" where
  "dlog10 (Fin x) = (if 0 < x then Fin (log 10 x) else if x = 0 then NInf else NaN)"
| "dlog10 PInf = PInf"
| "dlog10 NInf = NaN"
| "dlog10 NaN = NaN"

fun dsqrt :: "double \<Rightarrow> double" where
  "dsqrt (Fin x) = (if 0 \<le> x then Fin (sqrt x) else NaN)"
| "dsqrt PInf = PInf"
| "dsqrt NInf = NaN"
| "dsqrt NaN = NaN"

text \<open>\<^verbatim>\<open>std::pow(x, y)\<close> for the exponents the source uses (1.63, 0.2 and 1.6): a finite
  positive \<open>y\<close> that is not an integer.\<close>

fun dpow :: "double \<Rightarrow> real \<Rightarrow> double" where
  "dpow (Fin x) y = (if 0 < x then Fin (x powr y) else if x = 0 then Fin 0 else NaN)"
| "dpow PInf y = PInf"
| "dpow NInf y = PInf"
| "dpow NaN y = NaN"

text \<open>The conversion \<^verbatim>\<open>(int)x\<close> of a double to a 32-bit \<^verbatim>\<open>int\<close> discards the fractional
  part; it is undefined when the truncated value is not representable (\<open>None\<close>).\<close>

definition trunc_int :: "real \<Rightarrow> int" where
  "trunc_int x = (if 0 \<le> x then \<lfloor>x\<rfloor> else \<lceil>x\<rceil>)"

fun double_to_int :: "double \<Rightarrow> int option" where
  "double_to_int (Fin x) =
     (if - (2 ^ 31) \<le> trunc_int x \<and> trunc_int x \<le> 2 ^ 31 - 1 then Some (trunc_int x) else None)"
| "double_to_int _ = None"

definition int_to_double :: "int \<Rightarrow> double" where
  "int_to_double n = Fin (of_int n)"

section \<open>Data model\<close>

text \<open>The headers \<^verbatim>\<open>GridCell.hpp\<close>, \<^verbatim>\<open>Grid.hpp\<close>, \<^verbatim>\<open>Fluid.hpp\<close>, \<^verbatim>\<open>Star.hpp\<close>,
  \<^verbatim>\<open>Constants.hpp\<close> and \<^verbatim>\<open>Torch.hpp\<close> are not part of the sources at hand; the types
  below hold the members that the source files read and write, with the component
  names of the specification (section 3).  An array indexed by an enumeration is a
  function on the enumeration, an array indexed by a dimension or a neighbour slot is
  a function on \<open>nat\<close>.\<close>

datatype UID = DEN | PRE | VEL0 | VEL1 | VEL2 | HII | ADV

datatype TID = COL_DEN | DCOL_DEN | RATE | HEAT

datatype HID = FUVH | IRH | CRH | IMLC | NMLC | CEHI | CIEC | NMC | RHII | EUVH | TOT

text \<open>The components \<^verbatim>\<open>0 .. UID::N - 1\<close> that a loop over a conservative vector visits.\<close>

definition UID_all :: "UID list" where
  "UID_all = [DEN, PRE, VEL0, VEL1, VEL2, HII, ADV]"

record GridCell =
  Q :: "UID \<Rightarrow> double"
  U :: "UID \<Rightarrow> double"
  W :: "UID \<Rightarrow> double"
  UDOT :: "UID \<Rightarrow> double"
  GRAV :: "nat \<Rightarrow> double"
  T :: "TID \<Rightarrow> double"
  H :: "HID \<Rightarrow> double"
  xc :: "nat \<Rightarrow> double"
  ds :: double
  neighbourIDs :: "nat \<Rightarrow> int"
  neighbourWeights :: "nat \<Rightarrow> double"
  T_min :: double
  heatCapacityRatio :: double

datatype Location = HERE | LEFT | RIGHT | NONE

record Star =
  star_on :: bool
  star_core :: Location
  star_xc :: "nat \<Rightarrow> double"
  photonRate :: double

record Constants =
  nd :: nat
  pi_const :: double
  hydrogenMass :: double
  specificGasConstant :: double
  dustExtinctionCrossSection :: double
  dfloor :: double
  pfloor :: double
  tfloor :: double

text \<open>Modelled from the spec: \<^verbatim>\<open>PartitionManager\<close> (section 4.1) is not in the sources.  It
  holds a queue of items to send and a queue of received items; a matched send and
  receive deliver the items in the order they were added.  \<open>inbox\<close> is what the
  rank's peers have sent (by peer rank), \<open>outbox\<close> what this rank has sent.  The
  received queue is a position in a sequence: the matching send of the neighbour
  queues two items for each ghost cell, and reading past them is not modelled.\<close>

record PartitionManager =
  sendBuffer :: "double list"
  recvBuffer :: "nat \<Rightarrow> double"
  recvPos :: nat
  inbox :: "int \<Rightarrow> nat \<Rightarrow> double"
  outbox :: "(int \<times> double list) list"

definition resetBuffer :: "PartitionManager \<Rightarrow> PartitionManager" where
  "resetBuffer pm = pm\<lparr>sendBuffer := [], recvBuffer := (\<lambda>_. Fin 0), recvPos := 0\<rparr>"

definition recvData :: "int \<Rightarrow> PartitionManager \<Rightarrow> PartitionManager" where
  "recvData source pm = pm\<lparr>recvBuffer := inbox pm source, recvPos := 0\<rparr>"

definition getRecvItem :: "PartitionManager \<Rightarrow> double \<times> PartitionManager" where
  "getRecvItem pm = (recvBuffer pm (recvPos pm), pm\<lparr>recvPos := Suc (recvPos pm)\<rparr>)"

definition addSendItem :: "double \<Rightarrow> PartitionManager \<Rightarrow> PartitionManager" where
  "addSendItem v pm = pm\<lparr>sendBuffer := sendBuffer pm @ [v]\<rparr>"

definition sendData :: "int \<Rightarrow> PartitionManager \<Rightarrow> PartitionManager" where
  "sendData destination pm =
     pm\<lparr>outbox := outbox pm @ [(destination, sendBuffer pm)], sendBuffer := []\<rparr>"

text \<open>The grid: the cell store, the named orderings as lists of indices into it, and
  the neighbour of a cell along the decomposition axis (\<^verbatim>\<open>grid.left(0, cell)\<close> and
  \<^verbatim>\<open>grid.right(0, cell)\<close>).\<close>

record Grid =
  cells :: "GridCell list"
  GridCells :: "nat list"
  CausalWind :: "nat list"
  CausalNonWind :: "nat list"
  LeftPartitionCells :: "nat list"
  RightPartitionCells :: "nat list"
  left0 :: "nat \<Rightarrow> nat"
  right0 :: "nat \<Rightarrow> nat"
  dx :: "nat \<Rightarrow> double"
  currentTime :: double
  deltatime :: double
  partition :: PartitionManager

record Fluid =
  grid :: Grid
  star :: Star
  fluid_consts :: Constants
  fluid_massFractionH :: double

text \<open>The process-wide handle \<^verbatim>\<open>MPIW\<close>: the rank of this process and the number of
  processes.\<close>

record MPIW =
  rank :: int
  nProcessors :: int

text \<open>A loop over an ordering that updates each visited cell in place from its own
  fields.\<close>

definition forCells :: "(GridCell \<Rightarrow> GridCell) \<Rightarrow> nat list \<Rightarrow> GridCell list \<Rightarrow> GridCell list" where
  "forCells f ids cs = fold (\<lambda>cellID cs'. cs'[cellID := f (cs' ! cellID)]) ids cs"

text \<open>What ends a run early: an exception of type \<^verbatim>\<open>std::runtime_error\<close> with its
  message, a call of \<^verbatim>\<open>exit\<close> with its status, or undefined behaviour of the C++
  program.  The first two carry the cells that \<^verbatim>\<open>printInfo\<close> has dumped.\<close>

datatype fault =
    RuntimeError string "nat list"
  | ProcessExit int string "nat list"
  | UndefinedBehaviour

text \<open>The same loop where the update of a cell may fail: the loop stops at the first
  failure.\<close>

fun forCellsE :: "(GridCell \<Rightarrow> fault + GridCell) \<Rightarrow> nat list \<Rightarrow> GridCell list \<Rightarrow> fault + GridCell list" where
  "forCellsE f [] cs = Inr cs"
| "forCellsE f (cellID # ids) cs =
     (case f (cs ! cellID) of
        Inl e \<Rightarrow> Inl e
      | Inr c \<Rightarrow> forCellsE f ids (cs[cellID := c]))"

section \<open>Thermodynamics\<close>

text \<open>The members of \<^verbatim>\<open>Thermodynamics\<close> that the integrator reads
  (\<^verbatim>\<open>Thermodynamics::initialise\<close>, Thermodynamics.cpp, lines 24-57).  The unit conversions
  of \<^verbatim>\<open>Converter\<close> and the spline class behind
  \<^verbatim>\<open>m_collisionalExcitationHI_CoolingRates\<close> are not in the sources, so the converted
  constants are members with any value and the spline is its \<^verbatim>\<open>interpolate\<close> function.\<close>

record Thermodynamics =
  m_consts :: Constants
  m_isSubcycling :: bool
  m_thermoHII_Switch :: double
  m_heatingAmplification :: double
  m_massFractionH :: double
  m_z0 :: double
  m_T1 :: double
  m_T2 :: double
  m_T3 :: double
  m_T4 :: double
  m_imlc :: double
  m_nmlc :: double
  m_ciec_minT :: double
  m_ciec :: double
  m_cxhi_damp :: double
  m_n0 :: double
  m_nmc :: double
  m_fuvh_a :: double
  m_fuvh_b :: double
  m_fuvh_c :: double
  m_irh_a :: double
  m_irh_b :: double
  m_crh :: double
  m_collisionalExcitationHI_CoolingRates :: "double \<Rightarrow> double"

text \<open>\<^verbatim>\<open>Thermodynamics::fluxFUV\<close> (lines 113-118).\<close>

definition fluxFUV :: "Thermodynamics \<Rightarrow> double \<Rightarrow> double \<Rightarrow> double" where
  "fluxFUV th Q_FUV dist_sqrd =
     (if \<not> deq dist_sqrd (Fin 0)
      then Q_FUV / (Fin 12000000 * Fin 4 * pi_const (m_consts th) * dist_sqrd)
      else Fin 0)"

text \<open>The cooling and heating rates (lines 120-191).\<close>

definition ionisedMetalLineCooling :: "Thermodynamics \<Rightarrow> double \<Rightarrow> double \<Rightarrow> double" where
  "ionisedMetalLineCooling th ne temp =
     m_imlc th * m_z0 th * ne * ne
       * dexp ((- m_T1 th) / temp - (m_T2 th / temp) * (m_T2 th / temp))"

definition neutralMetalLineCooling :: "Thermodynamics \<Rightarrow> double \<Rightarrow> double \<Rightarrow> double \<Rightarrow> double" where
  "neutralMetalLineCooling th ne nn temp =
     m_nmlc th * m_z0 th * ne * nn
       * dexp ((- m_T3 th) / temp - (m_T4 th / temp) * (m_T4 th / temp))"

definition collisionalIonisationEquilibriumCooling :: "Thermodynamics \<Rightarrow> double \<Rightarrow> double \<Rightarrow> double" where
  "collisionalIonisationEquilibriumCooling th ne temp =
     (if m_ciec_minT th < temp then
        (let cie_rate = m_ciec th * ne * ne * m_z0 th * dexp (Fin (- 0.63) * dlog temp)
                          * (Fin 1 - dexp (- dpow (Fin 0.00001 * temp) 1.63));
             smoothing = dmin (Fin 1) ((temp - Fin 50000) / Fin 20000)
         in cie_rate * smoothing)
      else Fin 0)"

definition neutralMolecularLineCooling :: "Thermodynamics \<Rightarrow> double \<Rightarrow> double \<Rightarrow> double \<Rightarrow> double" where
  "neutralMolecularLineCooling th nH HIIFRAC temp =
     (let T0 = Fin 70 + Fin 220 * dpow (nH / m_n0 th) 0.2
      in m_nmc th * (Fin 1 - HIIFRAC) * (Fin 1 - HIIFRAC) * dpow nH 1.6 * dsqrt temp
           * dexp ((- T0) / temp))"

definition collisionalExcitationHI :: "Thermodynamics \<Rightarrow> double \<Rightarrow> double \<Rightarrow> double \<Rightarrow> double" where
  "collisionalExcitationHI th nH HIIFRAC temp =
     (let rate = m_collisionalExcitationHI_CoolingRates th (dlog10 temp)
      in HIIFRAC * (Fin 1 - HIIFRAC) * nH * nH
           * dexp ((Fin 2.302585093 * rate) - ((temp / m_cxhi_damp th) * (temp / m_cxhi_damp th))))"

definition farUltraVioletHeating :: "Thermodynamics \<Rightarrow> double \<Rightarrow> double \<Rightarrow> double \<Rightarrow> double" where
  "farUltraVioletHeating th nH Av_FUV F_FUV =
     m_fuvh_a th * nH * F_FUV * dexp (Fin (- 1.9) * Av_FUV)
       / (m_fuvh_b th + m_fuvh_c th * F_FUV * dexp (Fin (- 1.9) * Av_FUV) / nH)"

definition infraRedHeating :: "Thermodynamics \<Rightarrow> double \<Rightarrow> double \<Rightarrow> double \<Rightarrow> double" where
  "infraRedHeating th nH Av_FUV F_FUV =
     m_irh_a th * nH * F_FUV * dexp (Fin (- 0.05) * Av_FUV)
       * dexp (Fin (- 2) * dlog (Fin 1 + m_irh_b th / nH))"

definition cosmicRayHeating :: "Thermodynamics \<Rightarrow> double \<Rightarrow> double" where
  "cosmicRayHeating th nH = m_crh th * nH"

text \<open>Modelled from the spec: \<^verbatim>\<open>Fluid::calcTemperature\<close> is not in the sources.  Section
  4.3: the temperature is \<^verbatim>\<open>PRE / (mu_inv * R_specific * DEN)\<close> with
  \<^verbatim>\<open>mu_inv = X_H * (HII + 1) + (1 - X_H) * 0.25\<close>.\<close>

definition calcTemperature :: "Fluid \<Rightarrow> double \<Rightarrow> double \<Rightarrow> double \<Rightarrow> double" where
  "calcTemperature fl hii pre den =
     (let mu_inv = fluid_massFractionH fl * (hii + Fin 1)
                     + (Fin 1 - fluid_massFractionH fl) * Fin 0.25
      in pre / (mu_inv * specificGasConstant (fluid_consts fl) * den))"

text \<open>\<^verbatim>\<open>Thermodynamics::updateColDen\<close> (lines 339-363).  The cell is the one with index
  \<open>cellID\<close> of the cell store; a neighbour slot holds -1 when the neighbour is absent.\<close>

definition colden :: "GridCell list \<Rightarrow> GridCell \<Rightarrow> nat \<Rightarrow> double" where
  "colden cs cell i =
     (if neighbourIDs cell i \<noteq> - 1
      then T (cs ! nat (neighbourIDs cell i)) COL_DEN + T (cs ! nat (neighbourIDs cell i)) DCOL_DEN
      else Fin 0)"

definition w_raga :: "GridCell list \<Rightarrow> GridCell \<Rightarrow> nat \<Rightarrow> double" where
  "w_raga cs cell i =
     (if deq (colden cs cell i) (Fin 0) then Fin 0
      else neighbourWeights cell i / colden cs cell i)"

definition sum_w :: "GridCell list \<Rightarrow> GridCell \<Rightarrow> double" where
  "sum_w cs cell = w_raga cs cell 0 + w_raga cs cell 1 + w_raga cs cell 2 + w_raga cs cell 3"

text \<open>The loop \<^verbatim>\<open>for (int i = 0; i < 4 && sum_w != 0; ++i)\<close>: \<^verbatim>\<open>sum_w\<close> does not change in
  the loop, so the loop runs four times or not at all.\<close>

definition newcolden :: "GridCell list \<Rightarrow> GridCell \<Rightarrow> double" where
  "newcolden cs cell =
     (if \<not> deq (sum_w cs cell) (Fin 0)
      then foldl (\<lambda>acc i. acc + (w_raga cs cell i / sum_w cs cell) * colden cs cell i)
             (Fin 0) [0, 1, 2, 3]
      else Fin 0)"

definition updateColDen :: "Thermodynamics \<Rightarrow> GridCell list \<Rightarrow> nat \<Rightarrow> double \<Rightarrow> GridCell list" where
  "updateColDen th cs cellID dist2 =
     (let cell = cs ! cellID in
      if Fin 0.95 * Fin 0.95 < dist2 then
        cs[cellID := cell\<lparr>T := (T cell)
             (COL_DEN := newcolden cs cell,
              DCOL_DEN := (Q cell DEN / hydrogenMass (m_consts th)) * ds cell)\<rparr>]
      else
        cs[cellID := cell\<lparr>T := (T cell)
             (COL_DEN := Fin 0,
              DCOL_DEN := (Q cell DEN / hydrogenMass (m_consts th)) * ds cell)\<rparr>])"

text \<open>\<^verbatim>\<open>Thermodynamics::rayTrace\<close> (lines 365-417).\<close>

definition dist2_of :: "Thermodynamics \<Rightarrow> Star \<Rightarrow> GridCell \<Rightarrow> double" where
  "dist2_of th st cell =
     foldl (\<lambda>dist2 i. dist2 + (xc cell i - star_xc st i) * (xc cell i - star_xc st i))
       (Fin 0) [0 ..< nd (m_consts th)]"

definition recvGhosts :: "nat list \<Rightarrow> GridCell list \<times> PartitionManager \<Rightarrow> GridCell list \<times> PartitionManager" where
  "recvGhosts ghosts = fold (\<lambda>ghost (cs, pm).
       (let (v1, pm1) = getRecvItem pm;
            (v2, pm2) = getRecvItem pm1
        in (cs[ghost := (cs ! ghost)\<lparr>T := (T (cs ! ghost))(COL_DEN := v1, DCOL_DEN := v2)\<rparr>], pm2)))
     ghosts"

definition sweepColDen :: "Thermodynamics \<Rightarrow> Star \<Rightarrow> nat list \<Rightarrow> GridCell list \<Rightarrow> GridCell list" where
  "sweepColDen th st ids =
     fold (\<lambda>cellID cs. updateColDen th cs cellID (dist2_of th st (cs ! cellID))) ids"

definition queueColDen :: "GridCell list \<Rightarrow> nat list \<Rightarrow> PartitionManager \<Rightarrow> PartitionManager" where
  "queueColDen cs ids =
     fold (\<lambda>cellID pm. addSendItem (T (cs ! cellID) DCOL_DEN) (addSendItem (T (cs ! cellID) COL_DEN) pm))
       ids"

definition rayTrace :: "Thermodynamics \<Rightarrow> MPIW \<Rightarrow> Fluid \<Rightarrow> Fluid" where
  "rayTrace th mpihandler fl =
     (let g = grid fl;
          st = star fl;
          pm0 = resetBuffer (partition g);
          (cs1, pm1) =
            (if star_core st \<noteq> HERE then
               (let source = (if star_core st = LEFT then rank mpihandler - 1 else rank mpihandler + 1)
                in recvGhosts
                     (if star_core st = LEFT then LeftPartitionCells g else RightPartitionCells g)
                     (cells g, recvData source pm0))
             else (cells g, pm0));
          cs2 = sweepColDen th st (CausalWind g) cs1;
          cs3 = sweepColDen th st (CausalNonWind g) cs2;
          pm2 =
            (if \<not> (rank mpihandler = 0 \<or> star_core st = LEFT) then
               sendData (rank mpihandler - 1)
                 (queueColDen cs3 (map (right0 g) (LeftPartitionCells g)) pm1)
             else pm1);
          pm3 =
            (if \<not> (rank mpihandler = nProcessors mpihandler - 1 \<or> star_core st = RIGHT) then
               sendData (rank mpihandler + 1)
                 (queueColDen cs3 (map (left0 g) (RightPartitionCells g)) pm2)
             else pm2)
      in fl\<lparr>grid := g\<lparr>cells := cs3, partition := pm3\<rparr>\<rparr>)"

text \<open>\<^verbatim>\<open>Thermodynamics::preTimeStepCalculations\<close> (lines 218-264): the body of the loop over
  \<^verbatim>\<open>CausalNonWind\<close> for one cell, then the function.\<close>

definition rsqrd_of :: "Thermodynamics \<Rightarrow> Fluid \<Rightarrow> GridCell \<Rightarrow> double" where
  "rsqrd_of th fl cell =
     foldl (\<lambda>rsqrd i. rsqrd + (xc cell i - star_xc (star fl) i) * (xc cell i - star_xc (star fl) i)
                                * dx (grid fl) i * dx (grid fl) i)
       (Fin 0) [0 ..< nd (m_consts th)]"

definition preTimeStepCalculations_cell :: "Thermodynamics \<Rightarrow> Fluid \<Rightarrow> GridCell \<Rightarrow> GridCell" where
  "preTimeStepCalculations_cell th fl cell =
     (if Q cell ADV < m_thermoHII_Switch th then cell\<lparr>T := (T cell)(RATE := Fin 0)\<rparr>
      else
        (let nH = m_massFractionH th * Q cell DEN / hydrogenMass (m_consts th);
             HIIFRAC = Q cell HII;
             ne = nH * HIIFRAC;
             nn = nH * (Fin 1 - HIIFRAC);
             temp = calcTemperature fl (Q cell HII) (Q cell PRE) (Q cell DEN);
             F_FUV = (if star_on (star fl)
                      then fluxFUV th (Fin 0.5 * photonRate (star fl)) (rsqrd_of th fl cell)
                      else Fin 0);
             tau = T cell COL_DEN;
             Av_FUV = Fin 1.086 * dustExtinctionCrossSection (m_consts th) * tau;
             heat = Fin 0 + farUltraVioletHeating th nH Av_FUV F_FUV
                      + infraRedHeating th nH Av_FUV F_FUV
                      + cosmicRayHeating th nH;
             rate = softLanding
                      (heat - ionisedMetalLineCooling th ne temp
                            - neutralMetalLineCooling th ne nn temp
                            - collisionalExcitationHI th nH HIIFRAC temp
                            - collisionalIonisationEquilibriumCooling th ne temp
                            - neutralMolecularLineCooling th nH HIIFRAC temp)
                      temp (T_min cell)
         in cell\<lparr>T := (T cell)(HEAT := heat, RATE := m_heatingAmplification th * rate)\<rparr>))"

definition preTimeStepCalculations :: "Thermodynamics \<Rightarrow> MPIW \<Rightarrow> Fluid \<Rightarrow> Fluid" where
  "preTimeStepCalculations th mpihandler fl =
     (let fl1 = (if star_on (star fl) then rayTrace th mpihandler fl else fl)
      in fl1\<lparr>grid := (grid fl1)\<lparr>cells :=
           forCells (preTimeStepCalculations_cell th fl1) (CausalNonWind (grid fl1)) (cells (grid fl1))\<rparr>\<rparr>)"

text \<open>\<^verbatim>\<open>Thermodynamics::integrate\<close> (lines 266-337).  The local variables of the loop body
  that depend on the cell only.\<close>

definition nH_of :: "Thermodynamics \<Rightarrow> GridCell \<Rightarrow> double" where
  "nH_of th cell = m_massFractionH th * Q cell DEN / hydrogenMass (m_consts th)"

definition mu_inv_of :: "Thermodynamics \<Rightarrow> GridCell \<Rightarrow> double" where
  "mu_inv_of th cell =
     m_massFractionH th * (Q cell HII + Fin 1) + (Fin 1 - m_massFractionH th) * Fin 0.25"

definition pre2temp_of :: "Thermodynamics \<Rightarrow> GridCell \<Rightarrow> double" where
  "pre2temp_of th cell =
     Fin 1 / (mu_inv_of th cell * specificGasConstant (m_consts th) * Q cell DEN)"

definition temp2pre_of :: "Thermodynamics \<Rightarrow> GridCell \<Rightarrow> double" where
  "temp2pre_of th cell = mu_inv_of th cell * specificGasConstant (m_consts th) * Q cell DEN"

definition dti_of :: "GridCell \<Rightarrow> double" where
  "dti_of cell = \<bar>Fin 0.10 * U cell PRE / T cell RATE\<bar>"

definition rate2dpre_of :: "double \<Rightarrow> GridCell \<Rightarrow> double" where
  "rate2dpre_of dt cell = dmin dt (dti_of cell) * (heatCapacityRatio cell - Fin 1)"

text \<open>``Fix pressure and temperature and heating rate'': the state of a sub-cycle is the
  pair of \<^verbatim>\<open>pressure\<close> and \<^verbatim>\<open>subcycleT\<close>.\<close>

definition fixPressure :: "Thermodynamics \<Rightarrow> GridCell \<Rightarrow> double \<times> double \<Rightarrow> double \<times> double" where
  "fixPressure th cell = (\<lambda>(pressure, subcycleT).
     if pressure < pfloor (m_consts th) \<or> subcycleT < T_min cell then
       (let pfloor' = dmax (T_min cell * temp2pre_of th cell) (pfloor (m_consts th))
        in (pfloor', pfloor' * pre2temp_of th cell))
     else (pressure, subcycleT))"

text \<open>The rate of one pass of the sub-cycling loop at the temperature \<open>subcycleT\<close>.\<close>

definition subcycleRate :: "Thermodynamics \<Rightarrow> GridCell \<Rightarrow> double \<Rightarrow> double" where
  "subcycleRate th cell subcycleT =
     (let nH = nH_of th cell;
          HIIFRAC = Q cell HII;
          ne = nH * HIIFRAC;
          nn = nH * (Fin 1 - HIIFRAC)
      in m_heatingAmplification th *
           softLanding
             (T cell HEAT - ionisedMetalLineCooling th ne subcycleT
                          - neutralMetalLineCooling th ne nn subcycleT
                          - collisionalExcitationHI th nH HIIFRAC subcycleT
                          - collisionalIonisationEquilibriumCooling th ne subcycleT
                          - neutralMolecularLineCooling th nH HIIFRAC subcycleT)
             subcycleT (T_min cell))"

definition subcycleStep :: "Thermodynamics \<Rightarrow> GridCell \<Rightarrow> double \<Rightarrow> double \<times> double \<Rightarrow> double \<times> double" where
  "subcycleStep th cell rate2dpre = (\<lambda>(pressure, subcycleT).
     (let pressure' = pressure + subcycleRate th cell subcycleT * rate2dpre
      in fixPressure th cell (pressure', pressure' * pre2temp_of th cell)))"

text \<open>The loop \<^verbatim>\<open>for (int i = 0; i < nsteps; ++i)\<close>, by the number of passes that remain.\<close>

fun subcycling :: "Thermodynamics \<Rightarrow> GridCell \<Rightarrow> double \<Rightarrow> nat \<Rightarrow> double \<times> double \<Rightarrow> double \<times> double" where
  "subcycling th cell rate2dpre 0 s = s"
| "subcycling th cell rate2dpre (Suc n) s =
     subcycling th cell rate2dpre n (subcycleStep th cell rate2dpre s)"

text \<open>\<^verbatim>\<open>dtdti - (int)dtdti > 0 ? (int)(dtdti + 1.0) : (int)(dtdti + 0.5)\<close>.\<close>

definition subcycle_nsteps :: "double \<Rightarrow> int option" where
  "subcycle_nsteps dtdti =
     (case double_to_int dtdti of
        None \<Rightarrow> None
      | Some k \<Rightarrow>
          if Fin 0 < dtdti - int_to_double k then double_to_int (dtdti + Fin 1)
          else double_to_int (dtdti + Fin 0.5))"

definition writeRate :: "double \<Rightarrow> double \<Rightarrow> GridCell \<Rightarrow> GridCell" where
  "writeRate pressure dpre2rate cell =
     cell\<lparr>T := (T cell)(RATE := (pressure - Q cell PRE) * dpre2rate),
          H := (H cell)(TOT := (pressure - Q cell PRE) * dpre2rate)\<rparr>"

text \<open>The body of the loop over \<^verbatim>\<open>CausalNonWind\<close> for one cell.  The assignment
  \<^verbatim>\<open>dti = dt / nsteps\<close> of line 308 is the binding of \<open>dti'\<close>: nothing reads it, as
  \<^verbatim>\<open>rate2dpre\<close> and \<^verbatim>\<open>dpre2rate\<close> are set before it, on lines 292 and 293.  The decrement
  \<^verbatim>\<open>--nsteps\<close> is undefined when it overflows.\<close>

definition integrate_cell :: "Thermodynamics \<Rightarrow> double \<Rightarrow> GridCell \<Rightarrow> fault + GridCell" where
  "integrate_cell th dt cell =
     (if Q cell ADV < m_thermoHII_Switch th then
        Inr (cell\<lparr>H := (\<lambda>i. Fin 0), T := (T cell)(RATE := Fin 0)\<rparr>)
      else
        (let dti = dti_of cell;
             rate2dpre = rate2dpre_of dt cell;
             dpre2rate = Fin 1 / rate2dpre;
             pressure = Q cell PRE + T cell RATE * rate2dpre;
             first = fixPressure th cell (pressure, pressure * pre2temp_of th cell)
         in if dti < dt then
              (case subcycle_nsteps (dt / dti) of
                 None \<Rightarrow> Inl UndefinedBehaviour
               | Some nsteps \<Rightarrow>
                   (let dti' = dt / int_to_double nsteps
                    in if nsteps - 1 < - (2 ^ 31) then Inl UndefinedBehaviour
                       else Inr (writeRate
                              (fst (subcycling th cell rate2dpre (nat (nsteps - 1)) first))
                              dpre2rate cell)))
            else Inr (writeRate (fst first) dpre2rate cell)))"

definition integrate :: "Thermodynamics \<Rightarrow> double \<Rightarrow> Fluid \<Rightarrow> fault + Fluid" where
  "integrate th dt fl =
     (if \<not> m_isSubcycling th then Inr fl
      else
        (case forCellsE (integrate_cell th dt) (CausalNonWind (grid fl)) (cells (grid fl)) of
           Inl e \<Rightarrow> Inl e
         | Inr cs \<Rightarrow> Inr (fl\<lparr>grid := (grid fl)\<lparr>cells := cs\<rparr>\<rparr>)))"

text \<open>\<^verbatim>\<open>Thermodynamics::calculateTimeStep\<close> (lines 463-476).\<close>

definition Thermodynamics_calculateTimeStep :: "Thermodynamics \<Rightarrow> double \<Rightarrow> Fluid \<Rightarrow> double" where
  "Thermodynamics_calculateTimeStep th dt_max fl =
     fold (\<lambda>cell dt.
        if \<not> deq (T cell RATE) (Fin 0) then
          (let frac = (if m_isSubcycling th then Fin 1.0 else Fin 0.1);
               dti = \<bar>frac * U cell PRE / T cell RATE\<bar>
           in if dti < dt then dti else dt)
        else dt)
       (cells (grid fl)) dt_max"

text \<open>\<^verbatim>\<open>Thermodynamics::updateSourceTerms\<close> (lines 478-485): the body of the loop for one
  cell, then the function.\<close>

definition updateSourceTerms_cell :: "GridCell \<Rightarrow> GridCell" where
  "updateSourceTerms_cell cell =
     cell\<lparr>UDOT := (UDOT cell)(PRE := UDOT cell PRE + T cell RATE),
          T := (T cell)(HEAT := Fin 0, RATE := Fin 0)\<rparr>"

definition updateSourceTerms :: "Thermodynamics \<Rightarrow> double \<Rightarrow> Fluid \<Rightarrow> Fluid" where
  "updateSourceTerms th dt fl =
     fl\<lparr>grid := (grid fl)\<lparr>cells :=
          forCells updateSourceTerms_cell (CausalNonWind (grid fl)) (cells (grid fl))\<rparr>\<rparr>"

section \<open>The composite stepper\<close>

text \<open>The sources hold two versions of \<^verbatim>\<open>Torch.cpp\<close> (the unnamed parts 000 and 001).
  Their \<^verbatim>\<open>fullStep\<close>, \<^verbatim>\<open>subStep\<close> and \<^verbatim>\<open>hydroStep\<close> are the same text; their
  \<^verbatim>\<open>calculateTimeStep\<close> differ in what they print; their \<^verbatim>\<open>checkValues\<close> differ in how they
  end the run.  The model follows part 000 and has the \<^verbatim>\<open>checkValues\<close> of part 001 beside
  it.\<close>

datatype ComponentID = HYDRO | THERMO | RAD

text \<open>The classes \<^verbatim>\<open>Fluid\<close>, \<^verbatim>\<open>Hydrodynamics\<close> and \<^verbatim>\<open>Radiation\<close> are not in the sources.  Their
  operations that the stepper calls are parameters of the model: functions on the fluid
  for the whole-grid conversions and fixes of \<^verbatim>\<open>Fluid\<close> and for the four operations and
  the name of each of the two integrators.\<close>

record Externals =
  globalQfromU :: "Fluid \<Rightarrow> Fluid"
  globalWfromU :: "Fluid \<Rightarrow> Fluid"
  globalUfromW :: "Fluid \<Rightarrow> Fluid"
  fixPrimitives :: "Fluid \<Rightarrow> Fluid"
  fixSolution :: "Fluid \<Rightarrow> Fluid"
  advSolution :: "double \<Rightarrow> Fluid \<Rightarrow> Fluid"
  hydro_name :: string
  hydro_preTimeStepCalculations :: "Fluid \<Rightarrow> Fluid"
  hydro_calculateTimeStep :: "double \<Rightarrow> Fluid \<Rightarrow> double"
  hydro_integrate :: "double \<Rightarrow> Fluid \<Rightarrow> Fluid"
  hydro_updateSourceTerms :: "double \<Rightarrow> Fluid \<Rightarrow> Fluid"
  rad_name :: string
  rad_preTimeStepCalculations :: "Fluid \<Rightarrow> Fluid"
  rad_calculateTimeStep :: "double \<Rightarrow> Fluid \<Rightarrow> double"
  rad_integrate :: "double \<Rightarrow> Fluid \<Rightarrow> Fluid"
  rad_updateSourceTerms :: "double \<Rightarrow> Fluid \<Rightarrow> Fluid"

text \<open>The members of \<^verbatim>\<open>Torch\<close> that the stepper reads and writes, the function-static flag
  \<^verbatim>\<open>first_time\<close> of \<^verbatim>\<open>calculateTimeStep\<close>, and the error messages that the logger has
  received.\<close>

record Torch =
  fluid :: Fluid
  thermodynamics :: Thermodynamics
  mpihandler :: MPIW
  activeComponents :: "ComponentID list"
  stepCounter :: int
  first_time :: bool
  m_isQuitting :: bool
  logger :: "string list"
  radiation_on :: bool
  cooling_on :: bool
  debug :: bool
  tmax :: double
  dt_max :: double

text \<open>Modelled from the spec: \<^verbatim>\<open>MPIW::minimum\<close> is not in the sources.  Section 4.1: the
  collective minimum across ranks.  The values that the other ranks contribute to a
  reduction are an input of the model; \<open>Peers\<close> holds them for the four reductions of
  \<^verbatim>\<open>calculateTimeStep\<close>.\<close>

definition minimum :: "double list \<Rightarrow> double \<Rightarrow> double" where
  "minimum others x = fold dmin others x"

record Peers =
  peer_thyd :: "double list"
  peer_trad :: "double list"
  peer_ttherm :: "double list"
  peer_dt :: "double list"

text \<open>\<^verbatim>\<open>Torch::calculateTimeStep\<close> (part 000, lines 358-393).  The call of
  \<^verbatim>\<open>inputOutput.reduceToPrint\<close> only prints.  Part 001 (lines 264-298) has the same
  condition on line 290 and sets \<^verbatim>\<open>m_isQuitting\<close> without a message to the logger.\<close>

definition calculateTimeStep :: "Externals \<Rightarrow> Peers \<Rightarrow> Torch \<Rightarrow> double \<times> Torch" where
  "calculateTimeStep ext peers s =
     (let (dt, s1) =
        (if first_time s then (dt_max s * Fin (1 / 10 ^ 20), s\<lparr>first_time := False\<rparr>)
         else
           (let dt_hydro = hydro_calculateTimeStep ext (dt_max s) (fluid s);
                dt_rad = (if radiation_on s
                          then rad_calculateTimeStep ext (dt_max s) (fluid s) else dt_hydro);
                dt_thermo = (if cooling_on s
                          then Thermodynamics_calculateTimeStep (thermodynamics s) (dt_max s) (fluid s)
                          else dt_hydro);
                dt = dmin (dmin dt_hydro dt_rad) dt_thermo
            in if debug s then
                 (let thyd = minimum (peer_thyd peers) (Fin 100 * dt_hydro / tmax s);
                      trad = minimum (peer_trad peers) (Fin 100 * dt_rad / tmax s);
                      ttherm = minimum (peer_ttherm peers) (Fin 100 * dt_thermo / tmax s)
                  in if thyd \<le> Fin (1 / 10 ^ 6) \<or> thyd \<le> Fin (1 / 10 ^ 6) \<or> thyd \<le> Fin (1 / 10 ^ 6)
                     then (dt, s\<lparr>logger := logger s @ [''Integration deltas are too small.'' @ [CHR 0x0A]],
                                 m_isQuitting := True\<rparr>)
                     else (dt, s))
               else (dt, s)));
          dt' = minimum (peer_dt peers) dt
      in (dt', s1\<lparr>fluid := (fluid s1)\<lparr>grid := (grid (fluid s1))\<lparr>deltatime := dt'\<rparr>\<rparr>\<rparr>))"

text \<open>\<^verbatim>\<open>Torch::getComponent\<close> (lines 395-404) selects the integrator; the four functions
  below are the operations of the selected integrator.  The integration of the
  thermodynamics is the only one that is modelled with a failure.\<close>

definition getComponentName :: "Externals \<Rightarrow> ComponentID \<Rightarrow> string" where
  "getComponentName ext cmpt =
     (case cmpt of RAD \<Rightarrow> rad_name ext | THERMO \<Rightarrow> ''Thermodynamics'' | HYDRO \<Rightarrow> hydro_name ext)"

definition comp_preTimeStepCalculations :: "Externals \<Rightarrow> Torch \<Rightarrow> ComponentID \<Rightarrow> Fluid \<Rightarrow> Fluid" where
  "comp_preTimeStepCalculations ext s cmpt fl =
     (case cmpt of
        RAD \<Rightarrow> rad_preTimeStepCalculations ext fl
      | THERMO \<Rightarrow> preTimeStepCalculations (thermodynamics s) (mpihandler s) fl
      | HYDRO \<Rightarrow> hydro_preTimeStepCalculations ext fl)"

definition comp_integrate :: "Externals \<Rightarrow> Torch \<Rightarrow> ComponentID \<Rightarrow> double \<Rightarrow> Fluid \<Rightarrow> fault + Fluid" where
  "comp_integrate ext s cmpt dt fl =
     (case cmpt of
        RAD \<Rightarrow> Inr (rad_integrate ext dt fl)
      | THERMO \<Rightarrow> integrate (thermodynamics s) dt fl
      | HYDRO \<Rightarrow> Inr (hydro_integrate ext dt fl))"

definition comp_updateSourceTerms :: "Externals \<Rightarrow> Torch \<Rightarrow> ComponentID \<Rightarrow> double \<Rightarrow> Fluid \<Rightarrow> Fluid" where
  "comp_updateSourceTerms ext s cmpt dt fl =
     (case cmpt of
        RAD \<Rightarrow> rad_updateSourceTerms ext dt fl
      | THERMO \<Rightarrow> updateSourceTerms (thermodynamics s) dt fl
      | HYDRO \<Rightarrow> hydro_updateSourceTerms ext dt fl)"

text \<open>\<^verbatim>\<open>Torch::checkValues\<close> of part 000 (lines 474-497).  The two nested loops with their
  \<^verbatim>\<open>break\<close> find out whether some cell of \<^verbatim>\<open>GridCells\<close> has a component of \<^verbatim>\<open>U\<close> that is
  NaN or infinite, or a zero density or pressure.  The message has one line for each
  cell whose first or second velocity component exceeds \<^verbatim>\<open>1e50\<close> in absolute value; these
  are the cells that \<^verbatim>\<open>printInfo\<close> dumps.\<close>

definition cellHasError :: "GridCell \<Rightarrow> bool" where
  "cellHasError cell =
     list_ex (\<lambda>i. \<not> deq (U cell i) (U cell i) \<or> isinf (U cell i)
                    \<or> deq (Q cell DEN) (Fin 0) \<or> deq (Q cell PRE) (Fin 0)) UID_all"

definition dumpedCells :: "GridCell list \<Rightarrow> nat list \<Rightarrow> nat list" where
  "dumpedCells cs ids =
     filter (\<lambda>cellID. Fin (10 ^ 50) < \<bar>Q (cs ! cellID) VEL0\<bar> \<or> Fin (10 ^ 50) < \<bar>Q (cs ! cellID) VEL1\<bar>) ids"

definition errorLines :: "string \<Rightarrow> nat list \<Rightarrow> string" where
  "errorLines componentname dumped =
     concat (map (\<lambda>_. [CHR 0x0A] @ componentname @ '' produced an error.'' @ [CHR 0x0A]) dumped)"

definition checkValues :: "string \<Rightarrow> Fluid \<Rightarrow> fault + unit" where
  "checkValues componentname fl =
     (let cs = cells (grid fl); ids = GridCells (grid fl) in
      if list_ex (\<lambda>cellID. cellHasError (cs ! cellID)) ids then
        Inl (RuntimeError (errorLines componentname (dumpedCells cs ids) @ [CHR 0x0A])
               (dumpedCells cs ids))
      else Inr ())"

text \<open>\<^verbatim>\<open>Torch::checkValues\<close> of part 001 (lines 379-400): the loops run over all cells of
  the store (\<^verbatim>\<open>getCells()\<close>), the lines go to the standard output and the run ends with
  \<^verbatim>\<open>exit(0)\<close>.\<close>

definition checkValues_part_001 :: "string \<Rightarrow> Fluid \<Rightarrow> fault + unit" where
  "checkValues_part_001 componentname fl =
     (let cs = cells (grid fl); ids = [0 ..< length cs] in
      if list_ex (\<lambda>cellID. cellHasError (cs ! cellID)) ids then
        Inl (ProcessExit 0 (errorLines componentname (dumpedCells cs ids)) (dumpedCells cs ids))
      else Inr ())"

text \<open>\<^verbatim>\<open>Torch::subStep\<close> (part 000, lines 406-418).\<close>

definition subStep :: "Externals \<Rightarrow> double \<Rightarrow> bool \<Rightarrow> ComponentID \<Rightarrow> Torch \<Rightarrow> fault + Torch" where
  "subStep ext dt hasCalculatedHeatFlux cmpt s =
     (case checkValues (getComponentName ext cmpt @ ''before'') (fluid s) of
        Inl e \<Rightarrow> Inl e
      | Inr _ \<Rightarrow>
          (let fl1 = (if \<not> hasCalculatedHeatFlux
                      then comp_preTimeStepCalculations ext s cmpt
                             (fixPrimitives ext (globalQfromU ext (fluid s)))
                      else fluid s)
           in case comp_integrate ext s cmpt dt fl1 of
                Inl e \<Rightarrow> Inl e
              | Inr fl2 \<Rightarrow>
                  (let fl3 = fixSolution ext
                               (advSolution ext dt (comp_updateSourceTerms ext s cmpt dt fl2))
                   in case checkValues (getComponentName ext cmpt @ '' after'') fl3 of
                        Inl e \<Rightarrow> Inl e
                      | Inr _ \<Rightarrow> Inr (s\<lparr>fluid := fl3\<rparr>))))"

text \<open>\<^verbatim>\<open>Torch::hydroStep\<close> (part 000, lines 420-441).\<close>

definition hydroStep :: "Externals \<Rightarrow> double \<Rightarrow> bool \<Rightarrow> Torch \<Rightarrow> fault + Torch" where
  "hydroStep ext dt hasCalculatedHeatFlux s =
     (case checkValues ''hydro before'' (fluid s) of
        Inl e \<Rightarrow> Inl e
      | Inr _ \<Rightarrow>
          (let fl0 = globalWfromU ext (fluid s);
               fl1 = (if \<not> hasCalculatedHeatFlux
                      then hydro_preTimeStepCalculations ext
                             (fixPrimitives ext (globalQfromU ext fl0))
                      else fl0);
               fl2 = hydro_updateSourceTerms ext dt (hydro_integrate ext dt fl1);
               fl3 = fixSolution ext (advSolution ext (dt / Fin 2.0) fl2);
               fl4 = globalUfromW ext (globalQfromU ext fl3);
               fl5 = hydro_updateSourceTerms ext dt (hydro_integrate ext dt fl4);
               fl6 = fixSolution ext (advSolution ext dt fl5)
           in Inr (s\<lparr>fluid := fl6\<rparr>)))"

text \<open>\<^verbatim>\<open>Torch::fullStep\<close> (part 000, lines 443-472).  The remainder \<^verbatim>\<open>%\<close> of C++ truncates
  towards zero; an index outside of \<^verbatim>\<open>activeComponents\<close> and a remainder by zero are
  undefined.\<close>

definition c_rem :: "int \<Rightarrow> int \<Rightarrow> int" where
  "c_rem a b = sgn a * (\<bar>a\<bar> mod \<bar>b\<bar>)"

definition activeComponent :: "Torch \<Rightarrow> int \<Rightarrow> ComponentID option" where
  "activeComponent s k =
     (if 0 \<le> k \<and> k < int (length (activeComponents s))
      then Some (activeComponents s ! nat k) else None)"

text \<open>The loop \<^verbatim>\<open>for (int i = 0; i < ncomps; ++i)\<close> of lines 462-465, from the value of
  \<^verbatim>\<open>i\<close>.\<close>

function forwardPass :: "Externals \<Rightarrow> double \<Rightarrow> int \<Rightarrow> int \<Rightarrow> Torch \<Rightarrow> fault + Torch" where
  "forwardPass ext dt ncomps i s =
     (if i < ncomps then
        (let h = (if i = ncomps - 1 then Fin 1.0 else Fin 0.5) in
         case activeComponent s (c_rem (i + stepCounter s) ncomps) of
           None \<Rightarrow> Inl UndefinedBehaviour
         | Some cmpt \<Rightarrow>
             (case subStep ext (h * dt) (i = 0) cmpt s of
                Inl e \<Rightarrow> Inl e
              | Inr s' \<Rightarrow> forwardPass ext dt ncomps (i + 1) s'))
      else Inr s)"
  by pat_completeness auto
termination
  by (relation "measure (\<lambda>(ext, dt, ncomps, i, s). nat (ncomps - i))") auto

declare forwardPass.simps [simp del]

text \<open>The loop \<^verbatim>\<open>for (int i = ncomps-2; i >= 0; --i)\<close> of lines 467-469, from the value of
  \<^verbatim>\<open>i\<close>.\<close>

function reversePass :: "Externals \<Rightarrow> double \<Rightarrow> int \<Rightarrow> int \<Rightarrow> Torch \<Rightarrow> fault + Torch" where
  "reversePass ext dt ncomps i s =
     (if 0 \<le> i then
        (case activeComponent s (c_rem (i + stepCounter s) ncomps) of
           None \<Rightarrow> Inl UndefinedBehaviour
         | Some cmpt \<Rightarrow>
             (case subStep ext (dt / Fin 2.0) False cmpt s of
                Inl e \<Rightarrow> Inl e
              | Inr s' \<Rightarrow> reversePass ext dt ncomps (i - 1) s'))
      else Inr s)"
  by pat_completeness auto
termination
  by (relation "measure (\<lambda>(ext, dt, ncomps, i, s). nat (i + 1))") auto

declare reversePass.simps [simp del]

text \<open>Lines 444-451: the state and the timestep before the sub-steps.\<close>

definition fullStep_begin :: "Externals \<Rightarrow> Peers \<Rightarrow> double \<Rightarrow> Torch \<Rightarrow> double \<times> Torch" where
  "fullStep_begin ext peers dt_nextCheckPoint s =
     (let fl1 = fixPrimitives ext (globalQfromU ext (fluid s));
          fl2 = (if cooling_on s
                 then preTimeStepCalculations (thermodynamics s) (mpihandler s) fl1 else fl1);
          fl3 = (if radiation_on s then rad_preTimeStepCalculations ext fl2 else fl2);
          (dt0, s1) = calculateTimeStep ext peers (s\<lparr>fluid := fl3\<rparr>)
      in (dmin dt_nextCheckPoint dt0, s1))"

definition fullStep :: "Externals \<Rightarrow> Peers \<Rightarrow> double \<Rightarrow> Torch \<Rightarrow> fault + double \<times> Torch" where
  "fullStep ext peers dt_nextCheckPoint s =
     (let (dt, s1) = fullStep_begin ext peers dt_nextCheckPoint s;
          ncomps = int (length (activeComponents s1))
      in if ncomps = 1 then
           (case hydroStep ext dt True s1 of
              Inl e \<Rightarrow> Inl e
            | Inr s2 \<Rightarrow> Inr (dt, s2))
         else if ncomps = 0 then Inl UndefinedBehaviour
         else
           (let s2 = s1\<lparr>stepCounter := c_rem (stepCounter s1 + 1) ncomps\<rparr> in
            case forwardPass ext dt ncomps 0 s2 of
              Inl e \<Rightarrow> Inl e
            | Inr s3 \<Rightarrow>
                (case reversePass ext dt ncomps (ncomps - 2) s3 of
                   Inl e \<Rightarrow> Inl e
                 | Inr s4 \<Rightarrow> Inr (dt, s4))))"

text \<open>The sweep in the words of the specification (section 4.7 and property P4): for \<open>n\<close>
  active components and the advanced counter \<open>c\<close>, a forward pass over \<open>i = 0, \<dots>, n - 1\<close>
  with half the timestep but for the last, which has the whole, and with the flag
  \<^verbatim>\<open>hasHeatFlux\<close> for \<open>i = 0\<close> only; then a reverse pass over \<open>i = n - 2, \<dots>, 0\<close> with half
  the timestep; each on the component \<open>active[(i + c) mod n]\<close>.\<close>

definition sweep_spec :: "ComponentID list \<Rightarrow> nat \<Rightarrow> double \<Rightarrow> (double \<times> bool \<times> ComponentID) list" where
  "sweep_spec active c dt =
     (let n = length active in
      map (\<lambda>i. (if i = n - 1 then dt else dt / Fin 2, i = 0, active ! ((i + c) mod n))) [0 ..< n]
      @ map (\<lambda>i. (dt / Fin 2, False, active ! ((i + c) mod n))) (rev [0 ..< n - 1]))"

text \<open>A list of sub-steps, run in order up to the first that fails.\<close>

fun subSteps :: "Externals \<Rightarrow> (double \<times> bool \<times> ComponentID) list \<Rightarrow> Torch \<Rightarrow> fault + Torch" where
  "subSteps ext [] s = Inr s"
| "subSteps ext ((dt, hasCalculatedHeatFlux, cmpt) # rest) s =
     (case subStep ext dt hasCalculatedHeatFlux cmpt s of
        Inl e \<Rightarrow> Inl e
      | Inr s' \<Rightarrow> subSteps ext rest s')"

text \<open>Lines 310-314 of \<^verbatim>\<open>Torch::run\<close> (part 000; lines 226-230 of part 001): the active
  components are the hydrodynamics, then the thermodynamics if cooling is on, then the
  radiation if it is on.\<close>

definition run_activeComponents :: "bool \<Rightarrow> bool \<Rightarrow> ComponentID list" where
  "run_activeComponents cooling radiation =
     [HYDRO] @ (if cooling then [THERMO] else []) @ (if radiation then [RAD] else [])"

text \<open>The timestep that the integrator of a component asks for
  (\<^verbatim>\<open>getComponent(id).calculateTimeStep(dt_max, fluid)\<close>).\<close>

definition component_dt :: "Externals \<Rightarrow> Torch \<Rightarrow> ComponentID \<Rightarrow> double" where
  "component_dt ext s cmpt =
     (case cmpt of
        RAD \<Rightarrow> rad_calculateTimeStep ext (dt_max s) (fluid s)
      | THERMO \<Rightarrow> Thermodynamics_calculateTimeStep (thermodynamics s) (dt_max s) (fluid s)
      | HYDRO \<Rightarrow> hydro_calculateTimeStep ext (dt_max s) (fluid s))"

text \<open>A cell without its two column densities: what the ray trace leaves of a cell.\<close>

abbreviation sans_colden :: "GridCell \<Rightarrow> GridCell" where
  "sans_colden c \<equiv> c\<lparr>T := (T c)(COL_DEN := Fin 0, DCOL_DEN := Fin 0)\<rparr>"

section \<open>Sample states\<close>

text \<open>A cell with every component zero and no upwind neighbour, and a one-rank fluid
  over a given cell store whose \<^verbatim>\<open>CausalNonWind\<close> ordering is given, with the star off.
  The examples below evaluate the model on states built from these.\<close>

definition cell0 :: GridCell where
  "cell0 = \<lparr>Q = (\<lambda>_. Fin 0), U = (\<lambda>_. Fin 0), W = (\<lambda>_. Fin 0), UDOT = (\<lambda>_. Fin 0),
     GRAV = (\<lambda>_. Fin 0), T = (\<lambda>_. Fin 0), H = (\<lambda>_. Fin 0), xc = (\<lambda>_. Fin 0), ds = Fin 1,
     neighbourIDs = (\<lambda>_. - 1), neighbourWeights = (\<lambda>_. Fin 0), T_min = Fin 0,
     heatCapacityRatio = Fin 0\<rparr>"

definition consts0 :: Constants where
  "consts0 = \<lparr>nd = 1, pi_const = Fin 3, hydrogenMass = Fin 1, specificGasConstant = Fin 1,
     dustExtinctionCrossSection = Fin 1, dfloor = Fin 0, pfloor = Fin 0, tfloor = Fin 0\<rparr>"

definition partition0 :: PartitionManager where
  "partition0 = \<lparr>sendBuffer = [], recvBuffer = (\<lambda>_. Fin 0), recvPos = 0,
     inbox = (\<lambda>_ _. Fin 0), outbox = []\<rparr>"

definition fluid0 :: "GridCell list \<Rightarrow> nat list \<Rightarrow> Fluid" where
  "fluid0 cs ids =
     \<lparr>grid = \<lparr>cells = cs, GridCells = [0 ..< length cs], CausalWind = [], CausalNonWind = ids,
               LeftPartitionCells = [], RightPartitionCells = [], left0 = (\<lambda>i. i),
               right0 = (\<lambda>i. i), dx = (\<lambda>_. Fin 1), currentTime = Fin 0, deltatime = Fin 0,
               partition = partition0\<rparr>,
      star = \<lparr>star_on = False, star_core = HERE, star_xc = (\<lambda>_. Fin 0), photonRate = Fin 0\<rparr>,
      fluid_consts = consts0, fluid_massFractionH = Fin 1\<rparr>"

definition mpi0 :: MPIW where
  "mpi0 = \<lparr>rank = 0, nProcessors = 1\<rparr>"

text \<open>A thermodynamics integrator with the constants that \<^verbatim>\<open>initialise\<close> sets to literals
  (\<^verbatim>\<open>m_z0\<close>, \<^verbatim>\<open>m_T1\<close> to \<^verbatim>\<open>m_T4\<close>, \<^verbatim>\<open>m_ciec_minT\<close>, \<^verbatim>\<open>m_cxhi_damp\<close>), every converted
  constant 1, a hydrogen mass fraction and an ionisation switch as given, and a spline
  that is constant 0.\<close>

definition thermo0 :: "bool \<Rightarrow> double \<Rightarrow> double \<Rightarrow> Thermodynamics" where
  "thermo0 isSubcycling massFractionH switch =
     \<lparr>m_consts = consts0, m_isSubcycling = isSubcycling, m_thermoHII_Switch = switch,
      m_heatingAmplification = Fin 1, m_massFractionH = massFractionH, m_z0 = Fin 0.0005,
      m_T1 = Fin 33610, m_T2 = Fin 2180, m_T3 = Fin 28390, m_T4 = Fin 1780, m_imlc = Fin 1,
      m_nmlc = Fin 1, m_ciec_minT = Fin 50000, m_ciec = Fin 1, m_cxhi_damp = Fin 500000,
      m_n0 = Fin 1, m_nmc = Fin 1, m_fuvh_a = Fin 1, m_fuvh_b = Fin 1, m_fuvh_c = Fin 1,
      m_irh_a = Fin 1, m_irh_b = Fin 1, m_crh = Fin 1,
      m_collisionalExcitationHI_CoolingRates = (\<lambda>_. Fin 0)\<rparr>"

text \<open>A cell of density 4 and pressure 10 with a heating rate and a thermal rate of 1 and
  a heat capacity ratio of 2: its thermal timestep \<^verbatim>\<open>|0.1 * U[PRE] / T[RATE]|\<close> is 1.\<close>

definition warm_cell :: GridCell where
  "warm_cell = cell0\<lparr>Q := (\<lambda>_. Fin 0)(DEN := Fin 4, PRE := Fin 10),
     U := (\<lambda>_. Fin 0)(PRE := Fin 10), T := (\<lambda>_. Fin 0)(RATE := Fin 1, HEAT := Fin 1),
     heatCapacityRatio := Fin 2\<rparr>"

text \<open>Integrators of the hydrodynamics and the radiation that leave the fluid as it is
  and ask for the given timesteps, and whole-grid operations that leave the fluid as it
  is.\<close>

definition ext0 :: "double \<Rightarrow> double \<Rightarrow> Externals" where
  "ext0 dt_hydro dt_rad =
     \<lparr>globalQfromU = (\<lambda>fl. fl), globalWfromU = (\<lambda>fl. fl), globalUfromW = (\<lambda>fl. fl),
      fixPrimitives = (\<lambda>fl. fl), fixSolution = (\<lambda>fl. fl), advSolution = (\<lambda>dt fl. fl),
      hydro_name = ''Hydrodynamics'', hydro_preTimeStepCalculations = (\<lambda>fl. fl),
      hydro_calculateTimeStep = (\<lambda>dt_max fl. dt_hydro), hydro_integrate = (\<lambda>dt fl. fl),
      hydro_updateSourceTerms = (\<lambda>dt fl. fl),
      rad_name = ''Radiation'', rad_preTimeStepCalculations = (\<lambda>fl. fl),
      rad_calculateTimeStep = (\<lambda>dt_max fl. dt_rad), rad_integrate = (\<lambda>dt fl. fl),
      rad_updateSourceTerms = (\<lambda>dt fl. fl)\<rparr>"

text \<open>A stepper on one rank with \<^verbatim>\<open>tmax\<close> and \<^verbatim>\<open>dt_max\<close> 1 and the debug mode on, for a
  fluid, a thermodynamics integrator, the two switches and the flag \<^verbatim>\<open>first_time\<close>.\<close>

definition torch0 :: "Fluid \<Rightarrow> Thermodynamics \<Rightarrow> bool \<Rightarrow> bool \<Rightarrow> bool \<Rightarrow> Torch" where
  "torch0 fl th cooling radiation first =
     \<lparr>fluid = fl, thermodynamics = th, mpihandler = mpi0,
      activeComponents = run_activeComponents cooling radiation, stepCounter = 0,
      first_time = first, m_isQuitting = False, logger = [], radiation_on = radiation,
      cooling_on = cooling, debug = True, tmax = Fin 1, dt_max = Fin 1\<rparr>"

definition peers0 :: Peers where
  "peers0 = \<lparr>peer_thyd = [], peer_trad = [], peer_ttherm = [], peer_dt = []\<rparr>"

text \<open>A cell whose thermal rate of \<open>2\<^sup>3\<^sup>0\<close> at an energy of 1 gives the thermodynamics a
  timestep of \<open>2\<^sup>-\<^sup>3\<^sup>0\<close>, and a cell with a NaN in \<^verbatim>\<open>U\<close> and a first velocity component
  beyond \<^verbatim>\<open>1e50\<close>.\<close>

definition stiff_cell :: GridCell where
  "stiff_cell = cell0\<lparr>U := (\<lambda>_. Fin 0)(PRE := Fin 1), T := (\<lambda>_. Fin 0)(RATE := Fin 1073741824)\<rparr>"

definition broken_cell :: GridCell where
  "broken_cell = cell0\<lparr>Q := (\<lambda>_. Fin 1)(VEL0 := Fin (10 ^ 60)), U := (\<lambda>_. Fin 1)(VEL0 := NaN)\<rparr>"

section \<open>Properties of the double arithmetic\<close>

lemma double_add_zero_right: "x + Fin 0 = (x::double)"
  by (cases x) simp_all

lemma double_mul_one_left: "Fin 1 * x = (x::double)"
  by (cases x) (simp_all add: inf_of_sign_def)

lemma double_half_mul: "Fin (1 / 2) * x = x / Fin 2"
  by (cases x) (simp_all add: inf_of_sign_def)



lemma double_le_not_less': "(x::double) \<le> y \<Longrightarrow> \<not> y < x"
  by (cases x; cases y) simp_all

lemma double_not_less_le: "\<not> isnan x \<Longrightarrow> \<not> isnan y \<Longrightarrow> \<not> x < y \<Longrightarrow> y \<le> (x::double)"
  by (cases x; cases y) simp_all

lemma double_le_refl: "\<not> isnan x \<Longrightarrow> x \<le> (x::double)"
  by (cases x) simp_all

lemma double_less_imp_le: "(x::double) < y \<Longrightarrow> x \<le> y"
  by (cases x; cases y) simp_all

section \<open>Soft landing\<close>

text \<open>
  The statements of this section and of the sections on the column density and on the
  single step of the sub-cycling give every result as the expression that the program
  evaluates, operation by operation and in the program's order.  Their proofs use the
  order of the doubles and the special values, and of the arithmetic only sums and
  differences of the integers 100 and 200, so that they do not depend on finite results
  being exact.  The sample states are evaluated at values whose results a double
  represents exactly.
\<close>




section \<open>Loops over an ordering\<close>

lemma length_forCells: "length (forCells f ids cs) = length cs"
  unfolding forCells_def by (induction ids arbitrary: cs) simp_all

lemma forCells_Nil: "forCells f [] cs = cs"
  by (simp add: forCells_def)

lemma forCells_Cons: "forCells f (i # ids) cs = forCells f ids (cs[i := f (cs ! i)])"
  by (simp add: forCells_def)

lemma forCells_other: "j \<notin> set ids \<Longrightarrow> forCells f ids cs ! j = cs ! j"
  by (induction ids arbitrary: cs) (simp_all add: forCells_Cons forCells_Nil)

text \<open>A cell that the update leaves as it is stays as it is, however often the loop
  visits it.\<close>

lemma forCells_stable:
  "j < length cs \<Longrightarrow> f (cs ! j) = cs ! j \<Longrightarrow> forCells f ids cs ! j = cs ! j"
proof (induction ids arbitrary: cs)
  case Nil
  then show ?case by (simp add: forCells_Nil)
next
  case (Cons i ids)
  have eq: "cs[i := f (cs ! i)] ! j = cs ! j"
    using Cons.prems by (cases "i = j") simp_all
  have "forCells f ids (cs[i := f (cs ! i)]) ! j = cs[i := f (cs ! i)] ! j"
    using Cons.prems eq by (intro Cons.IH) simp_all
  then show ?case by (simp add: forCells_Cons eq)
qed

text \<open>A visited cell whose update is idempotent holds the update of its first value.\<close>

lemma forCells_visited:
  "j \<in> set ids \<Longrightarrow> j < length cs \<Longrightarrow> f (f (cs ! j)) = f (cs ! j) \<Longrightarrow>
   forCells f ids cs ! j = f (cs ! j)"
proof (induction ids arbitrary: cs)
  case Nil
  then show ?case by simp
next
  case (Cons i ids)
  show ?case
  proof (cases "i = j")
    case True
    have "forCells f ids (cs[j := f (cs ! j)]) ! j = cs[j := f (cs ! j)] ! j"
      using Cons.prems by (intro forCells_stable) simp_all
    then show ?thesis using True Cons.prems by (simp add: forCells_Cons)
  next
    case False
    then have "forCells f ids (cs[i := f (cs ! i)]) ! j = f (cs[i := f (cs ! i)] ! j)"
      using Cons.prems by (intro Cons.IH) simp_all
    then show ?thesis using False by (simp add: forCells_Cons)
  qed
qed

section \<open>Source terms of the thermodynamics\<close>

lemma updateSourceTerms_cell_idem:
  "updateSourceTerms_cell (updateSourceTerms_cell c) = updateSourceTerms_cell c"
  by (simp add: updateSourceTerms_cell_def double_add_zero_right)

text \<open>
  Claim C10.  After \<open>updateSourceTerms\<close>, every cell of the \<^verbatim>\<open>CausalNonWind\<close> ordering is
  the cell it was with \<^verbatim>\<open>T[RATE]\<close> added to \<^verbatim>\<open>UDOT[PRE]\<close> and with \<^verbatim>\<open>T[RATE]\<close> and
  \<^verbatim>\<open>T[HEAT]\<close> zero; every other cell is as it was, and nothing of the fluid but the cell
  store changes.  The rate is added once, also for a cell that the ordering lists more
  than once: a second visit adds the zero that the first one has left.
\<close>

theorem updateSourceTerms_effect:
  "(\<forall>j. j \<in> set (CausalNonWind (grid fl)) \<and> j < length (cells (grid fl)) \<longrightarrow>
      cells (grid (updateSourceTerms th dt fl)) ! j =
        (cells (grid fl) ! j)
          \<lparr>UDOT := (UDOT (cells (grid fl) ! j))
                     (PRE := UDOT (cells (grid fl) ! j) PRE + T (cells (grid fl) ! j) RATE),
           T := (T (cells (grid fl) ! j))(HEAT := Fin 0, RATE := Fin 0)\<rparr>) \<and>
   (\<forall>j. j \<notin> set (CausalNonWind (grid fl)) \<longrightarrow>
      cells (grid (updateSourceTerms th dt fl)) ! j = cells (grid fl) ! j) \<and>
   length (cells (grid (updateSourceTerms th dt fl))) = length (cells (grid fl)) \<and>
   updateSourceTerms th dt fl =
     fl\<lparr>grid := (grid fl)\<lparr>cells := cells (grid (updateSourceTerms th dt fl))\<rparr>\<rparr>"
proof -
  have "forCells updateSourceTerms_cell ids cs ! j = updateSourceTerms_cell (cs ! j)"
    if "j \<in> set ids" "j < length cs" for ids cs j
    using that by (intro forCells_visited) (simp_all add: updateSourceTerms_cell_idem)
  then show ?thesis
    by (simp add: updateSourceTerms_def forCells_other length_forCells)
      (simp add: updateSourceTerms_cell_def)
qed

theorem updateSourceTerms_effect_witness:
  "1 \<in> set (CausalNonWind (grid (fluid0
       [cell0, cell0\<lparr>UDOT := (\<lambda>_. Fin 2), T := (\<lambda>_. Fin 3)\<rparr>] [1, 1]))) \<and>
   (1::nat) < length (cells (grid (fluid0
       [cell0, cell0\<lparr>UDOT := (\<lambda>_. Fin 2), T := (\<lambda>_. Fin 3)\<rparr>] [1, 1]))) \<and>
   0 \<notin> set (CausalNonWind (grid (fluid0
       [cell0, cell0\<lparr>UDOT := (\<lambda>_. Fin 2), T := (\<lambda>_. Fin 3)\<rparr>] [1, 1]))) \<and>
   cells (grid (updateSourceTerms (thermo0 True (Fin 1) (Fin 0)) (Fin 1) (fluid0
       [cell0, cell0\<lparr>UDOT := (\<lambda>_. Fin 2), T := (\<lambda>_. Fin 3)\<rparr>] [1, 1]))) ! 1 =
     cell0\<lparr>UDOT := (\<lambda>_. Fin 2)(PRE := Fin 5), T := (\<lambda>_. Fin 3)(HEAT := Fin 0, RATE := Fin 0)\<rparr> \<and>
   cells (grid (updateSourceTerms (thermo0 True (Fin 1) (Fin 0)) (Fin 1) (fluid0
       [cell0, cell0\<lparr>UDOT := (\<lambda>_. Fin 2), T := (\<lambda>_. Fin 3)\<rparr>] [1, 1]))) ! 0 = cell0"
  using updateSourceTerms_effect
    [of "fluid0 [cell0, cell0\<lparr>UDOT := (\<lambda>_. Fin 2), T := (\<lambda>_. Fin 3)\<rparr>] [1, 1]"
        "thermo0 True (Fin 1) (Fin 0)" "Fin 1"]
  by (simp add: fluid0_def)

section \<open>Cells below the ionisation switch\<close>

lemma map_update_same: "f c = f (cs ! i) \<Longrightarrow> map f (cs[i := c]) = map f cs"
  by (cases "i < length cs") (simp_all add: map_update list_update_same_conv list_update_beyond)

lemma updateColDen_frame: "map sans_colden (updateColDen th cs i d) = map sans_colden cs"
  by (simp add: updateColDen_def Let_def map_update_same)

lemma sweepColDen_frame: "map sans_colden (sweepColDen th st ids cs) = map sans_colden cs"
  unfolding sweepColDen_def
  by (induction ids arbitrary: cs) (simp_all add: updateColDen_frame)

lemma recvGhosts_frame:
  "map sans_colden (fst (recvGhosts ghosts (cs, pm))) = map sans_colden cs"
  unfolding recvGhosts_def
  by (induction ghosts arbitrary: cs pm) (simp_all add: getRecvItem_def map_update_same)


lemma rayTrace_cells:
  "cells (grid (rayTrace th mpi fl)) =
     sweepColDen th (star fl) (CausalNonWind (grid fl))
       (sweepColDen th (star fl) (CausalWind (grid fl))
         (if star_core (star fl) \<noteq> HERE then
            fst (recvGhosts
              (if star_core (star fl) = LEFT then LeftPartitionCells (grid fl)
               else RightPartitionCells (grid fl))
              (cells (grid fl),
               recvData (if star_core (star fl) = LEFT then rank mpi - 1 else rank mpi + 1)
                 (resetBuffer (partition (grid fl)))))
          else cells (grid fl)))"
  unfolding rayTrace_def Let_def
  by (simp add: split_beta if_distrib [of fst] del: fold_simps)

lemma rayTrace_frame:
  "map sans_colden (cells (grid (rayTrace th mpi fl))) = map sans_colden (cells (grid fl))"
  by (simp only: rayTrace_cells sweepColDen_frame recvGhosts_frame if_distrib [of "map sans_colden"] if_cancel)

lemma rayTrace_orderings:
  "CausalNonWind (grid (rayTrace th mpi fl)) = CausalNonWind (grid fl) \<and>
   star (rayTrace th mpi fl) = star fl"
  unfolding rayTrace_def Let_def
  by (simp add: split_beta del: fold_simps)

lemma sans_colden_nth:
  assumes "map sans_colden cs' = map sans_colden cs" "j < length cs"
  shows "sans_colden (cs' ! j) = sans_colden (cs ! j)"
proof -
  have len: "length cs' = length cs"
    using arg_cong [OF assms(1), of length] by simp
  have "map sans_colden cs' ! j = map sans_colden cs ! j"
    using assms(1) by simp
  then show ?thesis using assms(2) len by simp
qed


lemma sans_colden_fields:
  assumes "sans_colden c' = sans_colden c"
  shows "c' = c\<lparr>T := (T c)(COL_DEN := T c' COL_DEN, DCOL_DEN := T c' DCOL_DEN)\<rparr>"
proof -
  have "T c' i = ((T c)(COL_DEN := T c' COL_DEN, DCOL_DEN := T c' DCOL_DEN)) i" for i
    using arg_cong [OF assms, of "\<lambda>c. T c i"] by (cases i) simp_all
  then have Teq: "T c' = (T c)(COL_DEN := T c' COL_DEN, DCOL_DEN := T c' DCOL_DEN)"
    by (rule ext)
  have "c' = c'\<lparr>T := T c'\<rparr>" by simp
  also have "\<dots> = (sans_colden c')\<lparr>T := T c'\<rparr>" by simp
  also have "\<dots> = (sans_colden c)\<lparr>T := T c'\<rparr>" using assms by simp
  also have "\<dots> = c\<lparr>T := T c'\<rparr>" by simp
  finally show ?thesis using Teq by simp
qed

lemma forCellsE_length: "forCellsE f ids cs = Inr cs' \<Longrightarrow> length cs' = length cs"
  by (induction ids arbitrary: cs) (auto split: sum.splits)

lemma forCellsE_other: "forCellsE f ids cs = Inr cs' \<Longrightarrow> j \<notin> set ids \<Longrightarrow> cs' ! j = cs ! j"
  by (induction ids arbitrary: cs) (auto split: sum.splits)

lemma forCellsE_stable:
  "forCellsE f ids cs = Inr cs' \<Longrightarrow> j < length cs \<Longrightarrow> f (cs ! j) = Inr (cs ! j) \<Longrightarrow>
   cs' ! j = cs ! j"
proof (induction ids arbitrary: cs)
  case Nil
  then show ?case by simp
next
  case (Cons i ids)
  from Cons.prems(1) obtain c where c: "f (cs ! i) = Inr c" and
    rest: "forCellsE f ids (cs[i := c]) = Inr cs'"
    by (auto split: sum.splits)
  have eq: "cs[i := c] ! j = cs ! j"
    using Cons.prems c by (cases "i = j") simp_all
  have "cs' ! j = cs[i := c] ! j"
    using rest Cons.prems eq by (intro Cons.IH) simp_all
  then show ?case by (simp add: eq)
qed

lemma forCellsE_visited:
  "forCellsE f ids cs = Inr cs' \<Longrightarrow> j \<in> set ids \<Longrightarrow> j < length cs \<Longrightarrow>
   f (cs ! j) = Inr c1 \<Longrightarrow> f c1 = Inr c1 \<Longrightarrow> cs' ! j = c1"
proof (induction ids arbitrary: cs)
  case Nil
  then show ?case by simp
next
  case (Cons i ids)
  from Cons.prems(1) obtain c where c: "f (cs ! i) = Inr c" and
    rest: "forCellsE f ids (cs[i := c]) = Inr cs'"
    by (auto split: sum.splits)
  show ?case
  proof (cases "i = j")
    case True
    then have "c = c1" using c Cons.prems by simp
    then have "cs' ! j = cs[i := c] ! j"
      using rest True Cons.prems by (intro forCellsE_stable [of f ids]) simp_all
    then show ?thesis using True \<open>c = c1\<close> Cons.prems by simp
  next
    case False
    then show ?thesis
      using rest Cons.prems by (intro Cons.IH [of "cs[i := c]"]) simp_all
  qed
qed

lemma preTimeStepCalculations_cell_switch:
  "Q c ADV < m_thermoHII_Switch th \<Longrightarrow>
   preTimeStepCalculations_cell th fl c = c\<lparr>T := (T c)(RATE := Fin 0)\<rparr>"
  by (simp add: preTimeStepCalculations_cell_def)

lemma integrate_cell_switch:
  "Q c ADV < m_thermoHII_Switch th \<Longrightarrow>
   integrate_cell th dt c = Inr (c\<lparr>H := (\<lambda>i. Fin 0), T := (T c)(RATE := Fin 0)\<rparr>)"
  by (simp add: integrate_cell_def)

text \<open>
  Claim C3, as the code has it.  For a cell of the \<^verbatim>\<open>CausalNonWind\<close> ordering whose
  \<^verbatim>\<open>Q[ADV]\<close> is below \<^verbatim>\<open>thermoHII_Switch\<close>: \<open>preTimeStepCalculations\<close> writes
  \<^verbatim>\<open>T[RATE] = 0\<close> and evaluates no rate; the cell keeps every other field, \<^verbatim>\<open>H\<close> and
  \<^verbatim>\<open>T[HEAT]\<close> among them, but for the two column densities that the ray trace sets
  when the star is on.  \<open>integrate\<close> with sub-cycling enabled writes \<^verbatim>\<open>T[RATE] = 0\<close> and
  zeroes every component of \<^verbatim>\<open>H\<close>, and changes nothing else of the cell; with
  sub-cycling disabled it returns the fluid as it is.
\<close>

theorem thermoHII_Switch_cells:
  assumes "j \<in> set (CausalNonWind (grid fl))" and "j < length (cells (grid fl))"
    and "Q (cells (grid fl) ! j) ADV < m_thermoHII_Switch th"
  shows "(\<exists>a b. cells (grid (preTimeStepCalculations th mpi fl)) ! j =
            (cells (grid fl) ! j)
              \<lparr>T := (T (cells (grid fl) ! j))(COL_DEN := a, DCOL_DEN := b, RATE := Fin 0)\<rparr>) \<and>
         (\<not> star_on (star fl) \<longrightarrow>
            cells (grid (preTimeStepCalculations th mpi fl)) ! j =
              (cells (grid fl) ! j)\<lparr>T := (T (cells (grid fl) ! j))(RATE := Fin 0)\<rparr>) \<and>
         (m_isSubcycling th \<and> integrate th dt fl = Inr fl' \<longrightarrow>
            cells (grid fl') ! j =
              (cells (grid fl) ! j)
                \<lparr>H := (\<lambda>i. Fin 0), T := (T (cells (grid fl) ! j))(RATE := Fin 0)\<rparr>) \<and>
         (\<not> m_isSubcycling th \<longrightarrow> integrate th dt fl = Inr fl)"
proof -
  let ?c = "cells (grid fl) ! j"
  define fl1 where "fl1 = (if star_on (star fl) then rayTrace th mpi fl else fl)"
  let ?c1 = "cells (grid fl1) ! j"
  have frame: "map sans_colden (cells (grid fl1)) = map sans_colden (cells (grid fl))"
    and ord: "CausalNonWind (grid fl1) = CausalNonWind (grid fl)"
    by (simp_all add: fl1_def rayTrace_frame rayTrace_orderings)
  have len: "length (cells (grid fl1)) = length (cells (grid fl))"
    using arg_cong [OF frame, of length] by simp
  have c1: "?c1 = ?c\<lparr>T := (T ?c)(COL_DEN := T ?c1 COL_DEN, DCOL_DEN := T ?c1 DCOL_DEN)\<rparr>"
    using sans_colden_nth [OF frame assms(2)] by (rule sans_colden_fields)
  have "Q ?c1 = Q ?c"
    by (subst c1) simp
  then have adv: "Q ?c1 ADV < m_thermoHII_Switch th"
    using assms(3) by simp
  have pre: "cells (grid (preTimeStepCalculations th mpi fl)) ! j =
      forCells (preTimeStepCalculations_cell th fl1) (CausalNonWind (grid fl1)) (cells (grid fl1)) ! j"
    by (simp add: preTimeStepCalculations_def fl1_def Let_def)
  also have "\<dots> = preTimeStepCalculations_cell th fl1 ?c1"
    using assms(1,2) ord len adv
    by (intro forCells_visited) (simp_all add: preTimeStepCalculations_cell_switch)
  also have "\<dots> = ?c1\<lparr>T := (T ?c1)(RATE := Fin 0)\<rparr>"
    using adv by (rule preTimeStepCalculations_cell_switch)
  finally have res: "cells (grid (preTimeStepCalculations th mpi fl)) ! j =
      ?c1\<lparr>T := (T ?c1)(RATE := Fin 0)\<rparr>" .
  have part1: "\<exists>a b. cells (grid (preTimeStepCalculations th mpi fl)) ! j =
      ?c\<lparr>T := (T ?c)(COL_DEN := a, DCOL_DEN := b, RATE := Fin 0)\<rparr>"
  proof (intro exI)
    show "cells (grid (preTimeStepCalculations th mpi fl)) ! j =
      ?c\<lparr>T := (T ?c)(COL_DEN := T ?c1 COL_DEN, DCOL_DEN := T ?c1 DCOL_DEN, RATE := Fin 0)\<rparr>"
      unfolding res by (subst (1 2) c1) simp
  qed
  have part2: "cells (grid (preTimeStepCalculations th mpi fl)) ! j = ?c\<lparr>T := (T ?c)(RATE := Fin 0)\<rparr>"
    if "\<not> star_on (star fl)"
    using res that by (simp add: fl1_def)
  have part3: "cells (grid fl') ! j = ?c\<lparr>H := (\<lambda>i. Fin 0), T := (T ?c)(RATE := Fin 0)\<rparr>"
    if "m_isSubcycling th" "integrate th dt fl = Inr fl'"
  proof -
    from that obtain cs where cs: "forCellsE (integrate_cell th dt) (CausalNonWind (grid fl)) (cells (grid fl)) = Inr cs"
      and fl': "fl' = fl\<lparr>grid := (grid fl)\<lparr>cells := cs\<rparr>\<rparr>"
      by (auto simp: integrate_def split: sum.splits)
    have "cs ! j = ?c\<lparr>H := (\<lambda>i. Fin 0), T := (T ?c)(RATE := Fin 0)\<rparr>"
      by (rule forCellsE_visited [OF cs assms(1) assms(2)])
        (simp_all add: integrate_cell_switch assms(3))
    then show ?thesis by (simp add: fl')
  qed
  have part4: "integrate th dt fl = Inr fl" if "\<not> m_isSubcycling th"
    using that by (simp add: integrate_def)
  show ?thesis using part1 part2 part3 part4 by blast
qed

theorem thermoHII_Switch_cells_witness:
  "0 \<in> set (CausalNonWind (grid (fluid0 [cell0\<lparr>T := (\<lambda>_. Fin 3), H := (\<lambda>_. Fin 1)\<rparr>] [0]))) \<and>
   0 < length (cells (grid (fluid0 [cell0\<lparr>T := (\<lambda>_. Fin 3), H := (\<lambda>_. Fin 1)\<rparr>] [0]))) \<and>
   Q (cells (grid (fluid0 [cell0\<lparr>T := (\<lambda>_. Fin 3), H := (\<lambda>_. Fin 1)\<rparr>] [0])) ! 0) ADV
     < m_thermoHII_Switch (thermo0 True (Fin 1) (Fin 1)) \<and>
   \<not> star_on (star (fluid0 [cell0\<lparr>T := (\<lambda>_. Fin 3), H := (\<lambda>_. Fin 1)\<rparr>] [0])) \<and>
   cells (grid (preTimeStepCalculations (thermo0 True (Fin 1) (Fin 1)) mpi0
       (fluid0 [cell0\<lparr>T := (\<lambda>_. Fin 3), H := (\<lambda>_. Fin 1)\<rparr>] [0]))) ! 0 =
     cell0\<lparr>T := (\<lambda>_. Fin 3)(RATE := Fin 0), H := (\<lambda>_. Fin 1)\<rparr> \<and>
   m_isSubcycling (thermo0 True (Fin 1) (Fin 1)) \<and>
   integrate (thermo0 True (Fin 1) (Fin 1)) (Fin 1)
       (fluid0 [cell0\<lparr>T := (\<lambda>_. Fin 3), H := (\<lambda>_. Fin 1)\<rparr>] [0]) =
     Inr (fluid0 [cell0\<lparr>T := (\<lambda>_. Fin 3)(RATE := Fin 0)\<rparr>] [0]) \<and>
   cells (grid (fluid0 [cell0\<lparr>T := (\<lambda>_. Fin 3)(RATE := Fin 0)\<rparr>] [0])) ! 0 =
     cell0\<lparr>T := (\<lambda>_. Fin 3)(RATE := Fin 0)\<rparr> \<and>
   \<not> m_isSubcycling (thermo0 False (Fin 1) (Fin 1)) \<and>
   integrate (thermo0 False (Fin 1) (Fin 1)) (Fin 1)
       (fluid0 [cell0\<lparr>T := (\<lambda>_. Fin 3), H := (\<lambda>_. Fin 1)\<rparr>] [0]) =
     Inr (fluid0 [cell0\<lparr>T := (\<lambda>_. Fin 3), H := (\<lambda>_. Fin 1)\<rparr>] [0])"
proof -
  have run: "integrate (thermo0 True (Fin 1) (Fin 1)) (Fin 1)
       (fluid0 [cell0\<lparr>T := (\<lambda>_. Fin 3), H := (\<lambda>_. Fin 1)\<rparr>] [0]) =
     Inr (fluid0 [cell0\<lparr>T := (\<lambda>_. Fin 3)(RATE := Fin 0)\<rparr>] [0])"
    by (simp add: integrate_def integrate_cell_def fluid0_def thermo0_def cell0_def)
  show ?thesis
    using run thermoHII_Switch_cells
      [of 0 "fluid0 [cell0\<lparr>T := (\<lambda>_. Fin 3), H := (\<lambda>_. Fin 1)\<rparr>] [0]"
          "thermo0 True (Fin 1) (Fin 1)" mpi0 "Fin 1"
          "fluid0 [cell0\<lparr>T := (\<lambda>_. Fin 3)(RATE := Fin 0)\<rparr>] [0]"]
      thermoHII_Switch_cells
      [of 0 "fluid0 [cell0\<lparr>T := (\<lambda>_. Fin 3), H := (\<lambda>_. Fin 1)\<rparr>] [0]"
          "thermo0 False (Fin 1) (Fin 1)" mpi0 "Fin 1"
          "fluid0 [cell0\<lparr>T := (\<lambda>_. Fin 3), H := (\<lambda>_. Fin 1)\<rparr>] [0]"]
    by (simp add: fluid0_def thermo0_def cell0_def)
qed

text \<open>The claim as the specification states it fails: \<open>preTimeStepCalculations\<close> does not
  touch \<^verbatim>\<open>H\<close>, and \<open>integrate\<close> without sub-cycling writes neither \<^verbatim>\<open>T[RATE]\<close> nor \<^verbatim>\<open>H\<close>.\<close>

theorem thermoHII_Switch_zeroes_H_counterexample:
  "0 \<in> set (CausalNonWind (grid (fluid0 [cell0\<lparr>T := (\<lambda>_. Fin 3), H := (\<lambda>_. Fin 1)\<rparr>] [0]))) \<and>
   Q (cells (grid (fluid0 [cell0\<lparr>T := (\<lambda>_. Fin 3), H := (\<lambda>_. Fin 1)\<rparr>] [0])) ! 0) ADV
     < m_thermoHII_Switch (thermo0 True (Fin 1) (Fin 1)) \<and>
   H (cells (grid (preTimeStepCalculations (thermo0 True (Fin 1) (Fin 1)) mpi0
       (fluid0 [cell0\<lparr>T := (\<lambda>_. Fin 3), H := (\<lambda>_. Fin 1)\<rparr>] [0]))) ! 0) FUVH = Fin 1 \<and>
   Fin 1 \<noteq> Fin 0 \<and>
   integrate (thermo0 False (Fin 1) (Fin 1)) (Fin 1)
       (fluid0 [cell0\<lparr>T := (\<lambda>_. Fin 3), H := (\<lambda>_. Fin 1)\<rparr>] [0]) =
     Inr (fluid0 [cell0\<lparr>T := (\<lambda>_. Fin 3), H := (\<lambda>_. Fin 1)\<rparr>] [0]) \<and>
   T (cells (grid (fluid0 [cell0\<lparr>T := (\<lambda>_. Fin 3), H := (\<lambda>_. Fin 1)\<rparr>] [0])) ! 0) RATE = Fin 3"
  by (simp add: preTimeStepCalculations_def preTimeStepCalculations_cell_def forCells_def
      integrate_def fluid0_def thermo0_def cell0_def)

section \<open>Column density of a cell\<close>

text \<open>
  Claim C5, as the code has it.  For a cell \<open>cell\<close> let \<open>cd i\<close> be the sum of \<^verbatim>\<open>COL_DEN\<close> and
  \<^verbatim>\<open>DCOL_DEN\<close> of its upwind neighbour \<open>i\<close> (0 for an absent neighbour), \<open>w i\<close> the
  neighbour weight divided by \<open>cd i\<close> (0 when \<open>cd i\<close> compares equal to 0) and \<open>s\<close> the sum
  \<open>w 0 + w 1 + w 2 + w 3\<close>.  Then \<open>updateColDen\<close> changes the cell's \<^verbatim>\<open>T[COL_DEN]\<close> and
  \<^verbatim>\<open>T[DCOL_DEN]\<close> only: \<^verbatim>\<open>DCOL_DEN\<close> becomes \<^verbatim>\<open>(Q[DEN] / hydrogenMass) * ds\<close>; \<^verbatim>\<open>COL_DEN\<close>
  becomes the sum, accumulated from 0 in the order of the neighbours, of the
  \<open>(w i / s) \<cdot> cd i\<close> when the squared distance exceeds \<^verbatim>\<open>0.95*0.95\<close> and \<open>s\<close> does not
  compare equal to 0, and 0 otherwise.
\<close>

theorem updateColDen_effect:
  "updateColDen th cs cellID dist2 =
     (let cell = cs ! cellID;
          cd = (\<lambda>i. if neighbourIDs cell i \<noteq> - 1
                     then T (cs ! nat (neighbourIDs cell i)) COL_DEN
                          + T (cs ! nat (neighbourIDs cell i)) DCOL_DEN
                     else Fin 0);
          w = (\<lambda>i. if deq (cd i) (Fin 0) then Fin 0 else neighbourWeights cell i / cd i);
          s = w 0 + w 1 + w 2 + w 3
      in cs[cellID := cell\<lparr>T := (T cell)
           (COL_DEN := (if Fin 0.95 * Fin 0.95 < dist2 \<and> \<not> deq s (Fin 0)
                        then Fin 0 + w 0 / s * cd 0 + w 1 / s * cd 1 + w 2 / s * cd 2
                               + w 3 / s * cd 3
                        else Fin 0),
            DCOL_DEN := (Q cell DEN / hydrogenMass (m_consts th)) * ds cell)\<rparr>])"
  by (simp add: updateColDen_def newcolden_def sum_w_def w_raga_def colden_def Let_def
      del: times_double.simps less_double.simps plus_double.simps divide_double.simps)

text \<open>A cell of density 3 and path length 2 at the squared distance 4 with two upwind
  neighbours of weight 1 whose column densities are 1 + 1: both weights are 0.5, their
  sum is 1, and the cell receives the column density 2 and the increment 6.\<close>

theorem updateColDen_effect_witness:
  "updateColDen (thermo0 True (Fin 1) (Fin 0))
     [cell0\<lparr>T := (\<lambda>_. Fin 1)\<rparr>, cell0\<lparr>T := (\<lambda>_. Fin 1)\<rparr>,
       cell0\<lparr>Q := (\<lambda>_. Fin 3), ds := Fin 2, neighbourIDs := (\<lambda>_. - 1)(0 := 0, 1 := 1),
             neighbourWeights := (\<lambda>_. Fin 0)(0 := Fin 1, 1 := Fin 1)\<rparr>] 2 (Fin 4) =
     [cell0\<lparr>T := (\<lambda>_. Fin 1)\<rparr>, cell0\<lparr>T := (\<lambda>_. Fin 1)\<rparr>,
       cell0\<lparr>Q := (\<lambda>_. Fin 3), ds := Fin 2, neighbourIDs := (\<lambda>_. - 1)(0 := 0, 1 := 1),
             neighbourWeights := (\<lambda>_. Fin 0)(0 := Fin 1, 1 := Fin 1),
             T := (\<lambda>_. Fin 0)(COL_DEN := Fin 2, DCOL_DEN := Fin 6)\<rparr>]"
  using updateColDen_effect [of "thermo0 True (Fin 1) (Fin 0)"
      "[cell0\<lparr>T := (\<lambda>_. Fin 1)\<rparr>, cell0\<lparr>T := (\<lambda>_. Fin 1)\<rparr>,
       cell0\<lparr>Q := (\<lambda>_. Fin 3), ds := Fin 2, neighbourIDs := (\<lambda>_. - 1)(0 := 0, 1 := 1),
             neighbourWeights := (\<lambda>_. Fin 0)(0 := Fin 1, 1 := Fin 1)\<rparr>]" 2 "Fin 4"]
  by (simp add: Let_def deq_def cell0_def thermo0_def consts0_def)

text \<open>A cell without upwind neighbours beyond the distance 0.95: every weight is 0, the
  weights cannot be renormalised (0 / 0 is NaN in each of them and in the weighted sum),
  and the code skips the renormalisation and writes 0.\<close>

theorem updateColDen_renormalise_counterexample:
  "Fin 0.95 * Fin 0.95 < Fin 4 \<and>
   sum_w [cell0] cell0 = Fin 0 \<and>
   w_raga [cell0] cell0 0 / sum_w [cell0] cell0 + w_raga [cell0] cell0 1 / sum_w [cell0] cell0
     + w_raga [cell0] cell0 2 / sum_w [cell0] cell0 + w_raga [cell0] cell0 3 / sum_w [cell0] cell0
     = NaN \<and>
   foldl (\<lambda>acc i. acc + (w_raga [cell0] cell0 i / sum_w [cell0] cell0) * colden [cell0] cell0 i)
     (Fin 0) [0, 1, 2, 3] = NaN \<and>
   T (updateColDen (thermo0 True (Fin 1) (Fin 0)) [cell0] 0 (Fin 4) ! 0) COL_DEN = Fin 0"
  by (simp add: updateColDen_def newcolden_def sum_w_def w_raga_def colden_def deq_def cell0_def)

section \<open>Sub-cycling of the thermodynamics: a single step\<close>

lemma forCellsE_distinct:
  "forCellsE f ids cs = Inr cs' \<Longrightarrow> distinct ids \<Longrightarrow> j \<in> set ids \<Longrightarrow> j < length cs \<Longrightarrow>
   f (cs ! j) = Inr (cs' ! j)"
proof (induction ids arbitrary: cs)
  case Nil
  then show ?case by simp
next
  case (Cons i ids)
  from Cons.prems(1) obtain c where c: "f (cs ! i) = Inr c" and
    rest: "forCellsE f ids (cs[i := c]) = Inr cs'"
    by (auto split: sum.splits)
  show ?case
  proof (cases "i = j")
    case True
    then have "j \<notin> set ids" using Cons.prems(2) by simp
    then have "cs' ! j = cs[i := c] ! j" by (rule forCellsE_other [OF rest])
    then show ?thesis using True c Cons.prems(4) by simp
  next
    case False
    then have "f (cs[i := c] ! j) = Inr (cs' ! j)"
      using rest Cons.prems by (intro Cons.IH) simp_all
    then show ?thesis using False by simp
  qed
qed

lemma integrate_nth:
  assumes "m_isSubcycling th" and "integrate th dt fl = Inr fl'"
    and "distinct (CausalNonWind (grid fl))" and "j \<in> set (CausalNonWind (grid fl))"
    and "j < length (cells (grid fl))"
  shows "integrate_cell th dt (cells (grid fl) ! j) = Inr (cells (grid fl') ! j)"
proof -
  from assms(1,2) obtain cs where
    cs: "forCellsE (integrate_cell th dt) (CausalNonWind (grid fl)) (cells (grid fl)) = Inr cs"
    and fl': "fl' = fl\<lparr>grid := (grid fl)\<lparr>cells := cs\<rparr>\<rparr>"
    by (auto simp: integrate_def split: sum.splits)
  show ?thesis
    using forCellsE_distinct [OF cs assms(3,4,5)] by (simp add: fl')
qed

text \<open>
  Claim C7, as the code has it.  Let \<open>integrate\<close> run with sub-cycling enabled and return,
  on a \<^verbatim>\<open>CausalNonWind\<close> ordering that lists no cell twice.  For a cell of the ordering that
  is not below the ionisation switch and whose thermal timestep
  \<^verbatim>\<open>|0.10 * U[PRE] / T[RATE]|\<close> is at least \<open>dt\<close>, one step is applied.  With \<^verbatim>\<open>rate2dpre\<close>
  the product \<^verbatim>\<open>dt * (gamma - 1)\<close>, the pressure \<open>p\<close> is \<^verbatim>\<open>Q[PRE] + T[RATE] * rate2dpre\<close>;
  it is replaced by the greater of \<^verbatim>\<open>T_min * temp2pre\<close> and \<^verbatim>\<open>pfloor\<close> when it is below
  \<^verbatim>\<open>pfloor\<close> or its temperature \<^verbatim>\<open>p * (1 / temp2pre)\<close> is below \<^verbatim>\<open>T_min\<close>, and kept otherwise.
  The rate written to \<^verbatim>\<open>T[RATE]\<close> and to \<^verbatim>\<open>H[TOT]\<close> is the difference of the new pressure and
  \<^verbatim>\<open>Q[PRE]\<close> times \<^verbatim>\<open>1 / rate2dpre\<close>; nothing else of the cell changes.  When none of \<open>p\<close>,
  \<^verbatim>\<open>pfloor\<close> and \<^verbatim>\<open>T_min * temp2pre\<close> is NaN, the new pressure is not below \<^verbatim>\<open>pfloor\<close>, and
  it is not below \<^verbatim>\<open>T_min * temp2pre\<close> or its temperature is not below \<^verbatim>\<open>T_min\<close>.
\<close>

theorem integrate_single_step:
  assumes "m_isSubcycling th" and "integrate th dt fl = Inr fl'"
    and "distinct (CausalNonWind (grid fl))" and "j \<in> set (CausalNonWind (grid fl))"
    and "j < length (cells (grid fl))"
    and "\<not> Q (cells (grid fl) ! j) ADV < m_thermoHII_Switch th"
    and "dt \<le> \<bar>Fin 0.10 * U (cells (grid fl) ! j) PRE / T (cells (grid fl) ! j) RATE\<bar>"
  shows "(let c = cells (grid fl) ! j;
              temp2pre = (m_massFractionH th * (Q c HII + Fin 1)
                            + (Fin 1 - m_massFractionH th) * Fin 0.25)
                         * specificGasConstant (m_consts th) * Q c DEN;
              rate2dpre = dt * (heatCapacityRatio c - Fin 1);
              p = Q c PRE + T c RATE * rate2dpre;
              pf = (if T_min c * temp2pre < pfloor (m_consts th) then pfloor (m_consts th)
                    else T_min c * temp2pre);
              p_new = (if p < pfloor (m_consts th) \<or> p * (Fin 1 / temp2pre) < T_min c
                       then pf else p);
              rate = (p_new - Q c PRE) * (Fin 1 / rate2dpre)
          in cells (grid fl') ! j = c\<lparr>T := (T c)(RATE := rate), H := (H c)(TOT := rate)\<rparr> \<and>
             (\<not> isnan p \<and> \<not> isnan (pfloor (m_consts th)) \<and> \<not> isnan (T_min c * temp2pre)
                \<longrightarrow> pfloor (m_consts th) \<le> p_new \<and>
                    (T_min c * temp2pre \<le> p_new \<or> \<not> p_new * (Fin 1 / temp2pre) < T_min c)))"
proof -
  let ?c = "cells (grid fl) ! j"
  let ?t2p = "(m_massFractionH th * (Q ?c HII + Fin 1) + (Fin 1 - m_massFractionH th) * Fin 0.25)
                * specificGasConstant (m_consts th) * Q ?c DEN"
  let ?r2d = "dt * (heatCapacityRatio ?c - Fin 1)"
  let ?p = "Q ?c PRE + T ?c RATE * ?r2d"
  let ?pf = "if T_min ?c * ?t2p < pfloor (m_consts th) then pfloor (m_consts th)
             else T_min ?c * ?t2p"
  let ?p_new = "if ?p < pfloor (m_consts th) \<or> ?p * (Fin 1 / ?t2p) < T_min ?c then ?pf else ?p"
  have le: "dt \<le> dti_of ?c"
    using assms(7) by (simp only: dti_of_def)
  then have nl: "\<not> dti_of ?c < dt"
    by (rule double_le_not_less')
  have r2d: "rate2dpre_of dt ?c = ?r2d"
    using nl by (simp add: rate2dpre_of_def dmin_def)
  have clamped: "fst (fixPressure th ?c (?p, ?p * pre2temp_of th ?c)) = ?p_new"
    by (simp add: fixPressure_def dmax_def pre2temp_of_def temp2pre_of_def mu_inv_of_def Let_def
        del: times_double.simps less_double.simps plus_double.simps divide_double.simps)
  have "Inr (cells (grid fl') ! j) = integrate_cell th dt ?c"
    using integrate_nth [OF assms(1-5)] by simp
  also have "\<dots> = Inr (writeRate (fst (fixPressure th ?c (?p, ?p * pre2temp_of th ?c)))
                        (Fin 1 / ?r2d) ?c)"
    using assms(6) nl by (simp add: integrate_cell_def Let_def r2d)
  finally have cell: "cells (grid fl') ! j =
      ?c\<lparr>T := (T ?c)(RATE := (?p_new - Q ?c PRE) * (Fin 1 / ?r2d)),
          H := (H ?c)(TOT := (?p_new - Q ?c PRE) * (Fin 1 / ?r2d))\<rparr>"
    by (simp only: clamped writeRate_def sum.inject)
  have below: "pfloor (m_consts th) \<le> ?p_new"
    if "\<not> isnan ?p" "\<not> isnan (pfloor (m_consts th))" "\<not> isnan (T_min ?c * ?t2p)"
    using that double_not_less_le [of ?p "pfloor (m_consts th)"]
      double_not_less_le [of "T_min ?c * ?t2p" "pfloor (m_consts th)"]
      double_le_refl [of "pfloor (m_consts th)"]
    by (simp del: times_double.simps less_double.simps plus_double.simps divide_double.simps
        less_eq_double.simps)
  have tmin: "T_min ?c * ?t2p \<le> ?p_new \<or> \<not> ?p_new * (Fin 1 / ?t2p) < T_min ?c"
    if "\<not> isnan (pfloor (m_consts th))" "\<not> isnan (T_min ?c * ?t2p)"
    using that double_less_imp_le [of "T_min ?c * ?t2p" "pfloor (m_consts th)"]
      double_le_refl [of "T_min ?c * ?t2p"]
    by (simp del: times_double.simps less_double.simps plus_double.simps divide_double.simps
        less_eq_double.simps)
  show ?thesis
    unfolding Let_def using cell below tmin by blast
qed

text \<open>The cell \<open>warm_cell\<close> with a floor \<^verbatim>\<open>T_min\<close> of 20 and \<open>dt = 0.5\<close>: \<^verbatim>\<open>temp2pre\<close> is 4, the
  pressure 10.5 has the temperature 2.625 below the floor and is replaced by 80, and the
  rate written is \<open>(80 - 10) \<cdot> (1 / 0.5) = 140\<close>.\<close>

theorem integrate_single_step_witness:
  "m_isSubcycling (thermo0 True (Fin 1) (Fin 0)) \<and>
   integrate (thermo0 True (Fin 1) (Fin 0)) (Fin 0.5) (fluid0 [warm_cell\<lparr>T_min := Fin 20\<rparr>] [0]) =
     Inr (fluid0 [warm_cell\<lparr>T_min := Fin 20, T := (T warm_cell)(RATE := Fin 140),
                            H := (H warm_cell)(TOT := Fin 140)\<rparr>] [0]) \<and>
   distinct (CausalNonWind (grid (fluid0 [warm_cell\<lparr>T_min := Fin 20\<rparr>] [0]))) \<and>
   0 \<in> set (CausalNonWind (grid (fluid0 [warm_cell\<lparr>T_min := Fin 20\<rparr>] [0]))) \<and>
   0 < length (cells (grid (fluid0 [warm_cell\<lparr>T_min := Fin 20\<rparr>] [0]))) \<and>
   \<not> Q (cells (grid (fluid0 [warm_cell\<lparr>T_min := Fin 20\<rparr>] [0])) ! 0) ADV
       < m_thermoHII_Switch (thermo0 True (Fin 1) (Fin 0)) \<and>
   Fin 0.5 \<le> \<bar>Fin 0.10 * U (cells (grid (fluid0 [warm_cell\<lparr>T_min := Fin 20\<rparr>] [0])) ! 0) PRE
                 / T (cells (grid (fluid0 [warm_cell\<lparr>T_min := Fin 20\<rparr>] [0])) ! 0) RATE\<bar> \<and>
   Fin 10 + Fin 1 * (Fin 0.5 * (Fin 2 - Fin 1)) = Fin 10.5 \<and>
   Fin 10.5 * (Fin 1 / Fin 4) < Fin 20 \<and>
   \<not> Fin 20 * Fin 4 < Fin 0 \<and>
   (Fin 20 * Fin 4 - Fin 10) * (Fin 1 / (Fin 0.5 * (Fin 2 - Fin 1))) = Fin 140 \<and>
   pfloor (m_consts (thermo0 True (Fin 1) (Fin 0))) \<le> Fin 20 * Fin 4 \<and>
   T_min (warm_cell\<lparr>T_min := Fin 20\<rparr>) * Fin 4 \<le> Fin 20 * Fin 4"
proof -
  have run: "integrate (thermo0 True (Fin 1) (Fin 0)) (Fin 0.5) (fluid0 [warm_cell\<lparr>T_min := Fin 20\<rparr>] [0]) =
     Inr (fluid0 [warm_cell\<lparr>T_min := Fin 20, T := (T warm_cell)(RATE := Fin 140),
                            H := (H warm_cell)(TOT := Fin 140)\<rparr>] [0])"
    by (simp add: integrate_def integrate_cell_def dti_of_def rate2dpre_of_def fixPressure_def
        pre2temp_of_def temp2pre_of_def mu_inv_of_def writeRate_def dmin_def dmax_def
        minus_double_def fluid0_def thermo0_def consts0_def warm_cell_def cell0_def Let_def)
  show ?thesis
    using run integrate_single_step
      [of "thermo0 True (Fin 1) (Fin 0)" "Fin 0.5" "fluid0 [warm_cell\<lparr>T_min := Fin 20\<rparr>] [0]"
          "fluid0 [warm_cell\<lparr>T_min := Fin 20, T := (T warm_cell)(RATE := Fin 140),
                            H := (H warm_cell)(TOT := Fin 140)\<rparr>] [0]" 0]
    by (simp add: minus_double_def fluid0_def thermo0_def consts0_def warm_cell_def cell0_def)
qed

text \<open>The single step is not applied to every cell with \<open>dt \<le> dt\<^sub>i\<close>.  The cell \<open>warm_cell\<close>
  with \<^verbatim>\<open>Q[ADV] = 0\<close> below a switch of 1 and \<open>dt = 0.5\<close> receives the rate 0 and the zeroed
  \<^verbatim>\<open>H\<close> of lines 275-279, where the step would give the pressure 10.5, above the floor 0,
  and the rate \<open>(10.5 - 10) / ((2 - 1) \<cdot> 0.5) = 1\<close>.\<close>

theorem integrate_single_step_switch_counterexample:
  "m_isSubcycling (thermo0 True (Fin 1) (Fin 1)) \<and>
   0 \<in> set (CausalNonWind (grid (fluid0 [warm_cell] [0]))) \<and>
   Fin 0.5 \<le> \<bar>Fin 0.10 * U warm_cell PRE / T warm_cell RATE\<bar> \<and>
   integrate (thermo0 True (Fin 1) (Fin 1)) (Fin 0.5) (fluid0 [warm_cell] [0]) =
     Inr (fluid0 [warm_cell\<lparr>H := (\<lambda>_. Fin 0), T := (T warm_cell)(RATE := Fin 0)\<rparr>] [0]) \<and>
   Q warm_cell PRE + T warm_cell RATE * (heatCapacityRatio warm_cell - Fin 1) * Fin 0.5 = Fin 10.5 \<and>
   dmax (T_min warm_cell * temp2pre_of (thermo0 True (Fin 1) (Fin 1)) warm_cell)
        (pfloor (m_consts (thermo0 True (Fin 1) (Fin 1)))) = Fin 0 \<and>
   (Fin 10.5 - Q warm_cell PRE) / ((heatCapacityRatio warm_cell - Fin 1) * Fin 0.5) = Fin 1 \<and>
   T (warm_cell\<lparr>H := (\<lambda>_. Fin 0), T := (T warm_cell)(RATE := Fin 0)\<rparr>) RATE
     \<noteq> (Fin 10.5 - Q warm_cell PRE) / ((heatCapacityRatio warm_cell - Fin 1) * Fin 0.5)"
  by (simp add: integrate_def integrate_cell_def temp2pre_of_def mu_inv_of_def dmax_def
      minus_double_def fluid0_def thermo0_def consts0_def warm_cell_def cell0_def)


section \<open>Sub-cycling of the thermodynamics: the micro-steps\<close>

text \<open>The number of steps that line 307 computes is the ratio rounded up.\<close>

lemma subcycle_nsteps_ceiling:
  assumes "1 \<le> x" and "x + 1 < 2 ^ 31"
  shows "subcycle_nsteps (Fin x) = Some \<lceil>x\<rceil>"
proof -
  have fl: "trunc_int x = \<lfloor>x\<rfloor>" "trunc_int (x + 1) = \<lfloor>x\<rfloor> + 1" "trunc_int (x + 1 / 2) = \<lfloor>x + 1 / 2\<rfloor>"
    using assms(1) by (simp_all add: trunc_int_def)
  have b1: "1 \<le> \<lfloor>x\<rfloor>" using assms(1) by linarith
  have b2: "\<lfloor>x\<rfloor> + 1 < 2 ^ 31"
  proof -
    have "real_of_int (\<lfloor>x\<rfloor> + 1) \<le> x + 1" by simp
    also have "\<dots> < 2 ^ 31" by (rule assms(2))
    finally have "real_of_int (\<lfloor>x\<rfloor> + 1) < real_of_int (2 ^ 31)" by simp
    then show ?thesis by (simp only: of_int_less_iff)
  qed
  have b3: "\<lfloor>x + 1 / 2\<rfloor> \<le> \<lfloor>x\<rfloor> + 1" by linarith
  have first: "double_to_int (Fin x) = Some \<lfloor>x\<rfloor>"
    using b1 b2 by (simp add: fl)
  show ?thesis
  proof (cases "x = of_int \<lfloor>x\<rfloor>")
    case True
    then have c: "\<lceil>x\<rceil> = \<lfloor>x\<rfloor>" by (metis ceiling_of_int)
    have h: "\<lfloor>x + 1 / 2\<rfloor> = \<lfloor>x\<rfloor>" using True by linarith
    have "\<not> Fin 0 < Fin x - int_to_double \<lfloor>x\<rfloor>"
      using True by (simp add: int_to_double_def minus_double_def)
    then show ?thesis
      using b1 b2 by (simp add: subcycle_nsteps_def first fl h c)
  next
    case False
    then have lt: "of_int \<lfloor>x\<rfloor> < x" by linarith
    then have c: "\<lceil>x\<rceil> = \<lfloor>x\<rfloor> + 1" by linarith
    have "Fin 0 < Fin x - int_to_double \<lfloor>x\<rfloor>"
      using lt by (simp add: int_to_double_def minus_double_def)
    then show ?thesis
      using b1 b2 by (simp add: subcycle_nsteps_def first fl c)
  qed
qed

text \<open>What the loop body does for a cell whose thermal timestep is below \<open>dt\<close>: after the
  first step, one pass of the loop for each further step, all of them with the factor
  \<^verbatim>\<open>rate2dpre\<close> of the thermal timestep \<^verbatim>\<open>dti\<close> as it was before line 308.\<close>

lemma integrate_cell_subcycling:
  assumes "\<not> Q c ADV < m_thermoHII_Switch th" and "dti_of c < dt"
    and "subcycle_nsteps (dt / dti_of c) = Some n" and "1 \<le> n"
  shows "integrate_cell th dt c =
     Inr (writeRate
       (fst (subcycling th c (dti_of c * (heatCapacityRatio c - Fin 1)) (nat (n - 1))
          (fixPressure th c
             (Q c PRE + T c RATE * (dti_of c * (heatCapacityRatio c - Fin 1)),
              (Q c PRE + T c RATE * (dti_of c * (heatCapacityRatio c - Fin 1))) * pre2temp_of th c))))
       (Fin 1 / (dti_of c * (heatCapacityRatio c - Fin 1))) c)"
proof -
  have r2d: "rate2dpre_of dt c = dti_of c * (heatCapacityRatio c - Fin 1)"
    using assms(2) by (simp add: rate2dpre_of_def dmin_def)
  show ?thesis
    using assms by (simp add: integrate_cell_def Let_def r2d)
qed

text \<open>For finite timesteps the two lemmas combine: with a thermal timestep \<open>t\<close> below
  \<open>d\<close>, the loop makes one pass less than the ratio \<open>d / t\<close> rounded up, each with the
  factor of the thermal timestep \<open>t\<close>.\<close>

lemma integrate_cell_subcycling_count:
  assumes "\<not> Q c ADV < m_thermoHII_Switch th" and "dti_of c = Fin t" and "0 < t" and "t < d"
    and "d / t + 1 < 2 ^ 31"
  shows "integrate_cell th (Fin d) c =
     Inr (writeRate
       (fst (subcycling th c (Fin t * (heatCapacityRatio c - Fin 1)) (nat (\<lceil>d / t\<rceil> - 1))
          (fixPressure th c
             (Q c PRE + T c RATE * (Fin t * (heatCapacityRatio c - Fin 1)),
              (Q c PRE + T c RATE * (Fin t * (heatCapacityRatio c - Fin 1))) * pre2temp_of th c))))
       (Fin 1 / (Fin t * (heatCapacityRatio c - Fin 1))) c)"
proof -
  have ratio: "1 \<le> d / t" using assms(3,4) by simp
  have lt: "dti_of c < Fin d" using assms(2,4) by simp
  have n: "subcycle_nsteps (Fin d / dti_of c) = Some \<lceil>d / t\<rceil>"
    using subcycle_nsteps_ceiling [OF ratio assms(5)] assms(2,3) by simp
  have one: "1 \<le> \<lceil>d / t\<rceil>" using ratio by linarith
  show ?thesis
    using integrate_cell_subcycling [OF assms(1) lt n one] by (simp only: assms(2))
qed

text \<open>
  Claim C6, at a cell where the code departs from it.  The fluid is the one cell
  \<open>warm_cell\<close> with a hydrogen mass fraction of 0 (so that \<^verbatim>\<open>nH\<close>, \<^verbatim>\<open>ne\<close> and \<^verbatim>\<open>nn\<close> are 0 and
  every cooling term vanishes) and \<open>dt = 1.5\<close>.  The thermal timestep is 1, the number of
  steps is 2 and \<^verbatim>\<open>dt / nsteps\<close> is 0.75, but the pressure advances by the rate times
  \<^verbatim>\<open>rate2dpre = 1\<close> in the first step and in the one pass of the loop, from 10 to 11 to 12,
  and the rate written back is 2.
\<close>

theorem integrate_subcycling_step:
  "dti_of warm_cell = Fin 1 \<and>
   subcycle_nsteps (Fin 1.5 / dti_of warm_cell) = Some 2 \<and>
   Fin 1.5 / int_to_double 2 = Fin 0.75 \<and>
   rate2dpre_of (Fin 1.5) warm_cell = Fin 1 \<and>
   subcycleRate (thermo0 True (Fin 0) (Fin 0)) warm_cell (Fin 11) = Fin 1 \<and>
   fixPressure (thermo0 True (Fin 0) (Fin 0)) warm_cell (Fin 11, Fin 11) = (Fin 11, Fin 11) \<and>
   subcycling (thermo0 True (Fin 0) (Fin 0)) warm_cell (Fin 1) 1 (Fin 11, Fin 11) = (Fin 12, Fin 12) \<and>
   integrate (thermo0 True (Fin 0) (Fin 0)) (Fin 1.5) (fluid0 [warm_cell] [0]) =
     Inr (fluid0 [warm_cell\<lparr>T := (T warm_cell)(RATE := Fin 2),
                            H := (H warm_cell)(TOT := Fin 2)\<rparr>] [0])"
proof -
  let ?th = "thermo0 True (Fin 0) (Fin 0)"
  have dti: "dti_of warm_cell = Fin 1"
    by (simp add: dti_of_def warm_cell_def cell0_def)
  have n: "subcycle_nsteps (Fin 1.5 / dti_of warm_cell) = Some 2"
    by (simp add: dti subcycle_nsteps_def trunc_int_def int_to_double_def minus_double_def)
  have r2d: "rate2dpre_of (Fin 1.5) warm_cell = Fin 1"
    by (simp add: rate2dpre_of_def dti dmin_def) (simp add: minus_double_def warm_cell_def cell0_def)
  have p2t: "pre2temp_of ?th warm_cell = Fin 1" "temp2pre_of ?th warm_cell = Fin 1"
    by (simp_all add: pre2temp_of_def temp2pre_of_def mu_inv_of_def minus_double_def
        thermo0_def consts0_def warm_cell_def cell0_def)
  have rate: "subcycleRate ?th warm_cell (Fin 11) = Fin 1"
    by (simp add: subcycleRate_def nH_of_def thermo0_def consts0_def warm_cell_def cell0_def
        ionisedMetalLineCooling_def neutralMetalLineCooling_def collisionalExcitationHI_def
        collisionalIonisationEquilibriumCooling_def neutralMolecularLineCooling_def
        softLanding_def minus_double_def Let_def)
  have nofix: "fixPressure ?th warm_cell (Fin x, Fin x) = (Fin x, Fin x)" if "0 \<le> x" for x
    using that by (simp add: fixPressure_def thermo0_def consts0_def warm_cell_def cell0_def)
  have loop: "subcycling ?th warm_cell (Fin 1) 1 (Fin 11, Fin 11) = (Fin 12, Fin 12)"
    by (simp add: subcycleStep_def rate p2t nofix Let_def)
  have adv: "\<not> Q warm_cell ADV < m_thermoHII_Switch ?th"
    by (simp add: thermo0_def warm_cell_def cell0_def)
  have cell: "integrate_cell ?th (Fin 1.5) warm_cell =
      Inr (warm_cell\<lparr>T := (T warm_cell)(RATE := Fin 2), H := (H warm_cell)(TOT := Fin 2)\<rparr>)"
  proof -
    have lt: "dti_of warm_cell < Fin 1.5" by (simp add: dti)
    have g: "heatCapacityRatio warm_cell - Fin 1 = Fin 1"
      by (simp add: minus_double_def warm_cell_def cell0_def)
    have first: "Q warm_cell PRE + T warm_cell RATE * (dti_of warm_cell * Fin 1) = Fin 11"
      by (simp add: dti) (simp add: warm_cell_def cell0_def)
    have "integrate_cell ?th (Fin 1.5) warm_cell =
        Inr (writeRate (fst (subcycling ?th warm_cell (Fin 1) 1 (Fin 11, Fin 11))) (Fin 1) warm_cell)"
      using integrate_cell_subcycling [OF adv lt n]
      by (simp add: g first p2t nofix) (simp add: dti)
    then show ?thesis
      by (simp only: loop) (simp add: writeRate_def minus_double_def warm_cell_def cell0_def)
  qed
  have "integrate ?th (Fin 1.5) (fluid0 [warm_cell] [0]) =
     Inr (fluid0 [warm_cell\<lparr>T := (T warm_cell)(RATE := Fin 2),
                            H := (H warm_cell)(TOT := Fin 2)\<rparr>] [0])"
    using cell by (simp add: integrate_def fluid0_def) (simp add: thermo0_def)
  then show ?thesis
    using dti n r2d rate nofix [of 11] loop by (simp add: int_to_double_def)
qed

section \<open>The timestep of the composite stepper\<close>

lemma dmin_idem: "dmin x x = x"
  by (simp add: dmin_def)

lemma minimum_Nil: "minimum [] x = x"
  by (simp add: minimum_def)

lemma minimum_same: "set others \<subseteq> {x} \<Longrightarrow> minimum others x = x"
  unfolding minimum_def by (induction others) (simp_all add: dmin_idem)

lemma dmin_cases: "dmin a b = a \<or> dmin a b = b"
  by (simp add: dmin_def)

lemma dmin_le: "\<not> isnan a \<Longrightarrow> \<not> isnan b \<Longrightarrow> dmin a b \<le> a \<and> dmin a b \<le> b"
  by (cases a; cases b) (auto simp: dmin_def)

lemma double_le_trans: "(x::double) \<le> y \<Longrightarrow> y \<le> z \<Longrightarrow> x \<le> z"
  by (cases x; cases y; cases z) simp_all

text \<open>
  Claim C9.  A call of \<open>calculateTimeStep\<close> with \<^verbatim>\<open>first_time\<close> set, which is the first call
  of the run, returns the global minimum of \<^verbatim>\<open>dt_max * 1e-20\<close>, whatever the fluid and the
  integrators are; this is \<^verbatim>\<open>dt_max * 1e-20\<close> itself when the other ranks contribute the
  same value, as they do in their own first call with the same \<^verbatim>\<open>dt_max\<close>.  The call does
  not set the quit flag.  Every call leaves \<^verbatim>\<open>first_time\<close> cleared, so every later call
  takes the other branch: with the active components as \<^verbatim>\<open>run\<close> builds them and no NaN
  among their timesteps, it returns the global minimum of a value that is the timestep
  of an active component and is at most the timestep of every active component.
\<close>

theorem calculateTimeStep_bootstrap:
  "(first_time s \<longrightarrow>
      fst (calculateTimeStep ext peers (s\<lparr>fluid := fl\<rparr>))
        = minimum (peer_dt peers) (dt_max s * Fin (1 / 10 ^ 20)) \<and>
      (set (peer_dt peers) \<subseteq> {dt_max s * Fin (1 / 10 ^ 20)} \<longrightarrow>
         fst (calculateTimeStep ext peers (s\<lparr>fluid := fl\<rparr>)) = dt_max s * Fin (1 / 10 ^ 20)) \<and>
      m_isQuitting (snd (calculateTimeStep ext peers (s\<lparr>fluid := fl\<rparr>))) = m_isQuitting s) \<and>
   \<not> first_time (snd (calculateTimeStep ext peers s)) \<and>
   (\<not> first_time s \<and> activeComponents s = run_activeComponents (cooling_on s) (radiation_on s) \<and>
    (\<forall>c \<in> set (activeComponents s). \<not> isnan (component_dt ext s c)) \<longrightarrow>
      (\<exists>m. fst (calculateTimeStep ext peers s) = minimum (peer_dt peers) m \<and>
           m \<in> component_dt ext s ` set (activeComponents s) \<and>
           (\<forall>c \<in> set (activeComponents s). m \<le> component_dt ext s c)))"
proof -
  have boot: "fst (calculateTimeStep ext peers (s\<lparr>fluid := fl\<rparr>))
        = minimum (peer_dt peers) (dt_max s * Fin (1 / 10 ^ 20))" if "first_time s"
    using that by (simp add: calculateTimeStep_def Let_def)
  have quit: "m_isQuitting (snd (calculateTimeStep ext peers (s\<lparr>fluid := fl\<rparr>))) = m_isQuitting s"
    if "first_time s"
    using that by (simp add: calculateTimeStep_def Let_def)
  have flag: "\<not> first_time (snd (calculateTimeStep ext peers s))"
    by (simp add: calculateTimeStep_def Let_def split_beta)
  have later: "\<exists>m. fst (calculateTimeStep ext peers s) = minimum (peer_dt peers) m \<and>
           m \<in> component_dt ext s ` set (activeComponents s) \<and>
           (\<forall>c \<in> set (activeComponents s). m \<le> component_dt ext s c)"
    if nf: "\<not> first_time s"
      and act: "activeComponents s = run_activeComponents (cooling_on s) (radiation_on s)"
      and nn: "\<forall>c \<in> set (activeComponents s). \<not> isnan (component_dt ext s c)"
  proof -
    let ?h = "component_dt ext s HYDRO"
    let ?r = "if radiation_on s then component_dt ext s RAD else ?h"
    let ?t = "if cooling_on s then component_dt ext s THERMO else ?h"
    let ?m = "dmin (dmin ?h ?r) ?t"
    have res: "fst (calculateTimeStep ext peers s) = minimum (peer_dt peers) ?m"
      using nf by (simp add: calculateTimeStep_def Let_def split_beta component_dt_def)
    have nh: "\<not> isnan ?h" and nr: "\<not> isnan ?r" and nt: "\<not> isnan ?t"
      using nn by (auto simp: act run_activeComponents_def)
    have nhr: "\<not> isnan (dmin ?h ?r)"
      using nh nr by (simp add: dmin_def)
    have le1: "?m \<le> dmin ?h ?r" "?m \<le> ?t"
      using dmin_le [OF nhr nt] by simp_all
    have le2: "dmin ?h ?r \<le> ?h" "dmin ?h ?r \<le> ?r"
      using dmin_le [OF nh nr] by simp_all
    have les: "?m \<le> ?h" "?m \<le> ?r" "?m \<le> ?t"
      using double_le_trans [OF le1(1) le2(1)] double_le_trans [OF le1(1) le2(2)] le1(2)
      by simp_all
    have mem: "?m = ?h \<or> ?m = ?r \<or> ?m = ?t"
      by (simp add: dmin_def)
    have "?m \<in> component_dt ext s ` set (activeComponents s)"
      using mem by (auto simp: act run_activeComponents_def split: if_splits)
    moreover have "\<forall>c \<in> set (activeComponents s). ?m \<le> component_dt ext s c"
      using les by (auto simp: act run_activeComponents_def split: if_splits)
    ultimately show ?thesis using res by blast
  qed
  have same: "fst (calculateTimeStep ext peers (s\<lparr>fluid := fl\<rparr>)) = dt_max s * Fin (1 / 10 ^ 20)"
    if "first_time s" "set (peer_dt peers) \<subseteq> {dt_max s * Fin (1 / 10 ^ 20)}"
    using boot [OF that(1)] minimum_same [OF that(2)] by simp
  show ?thesis
    by (intro conjI impI) (use boot quit flag later same in \<open>simp_all\<close>)
qed

theorem calculateTimeStep_bootstrap_witness:
  "first_time (torch0 (fluid0 [cell0] [0]) (thermo0 True (Fin 1) (Fin 0)) True False True) \<and>
   set (peer_dt peers0) \<subseteq> {Fin 1 * Fin (1 / 10 ^ 20)} \<and>
   fst (calculateTimeStep (ext0 (Fin 0.5) (Fin 1)) peers0
     ((torch0 (fluid0 [cell0] [0]) (thermo0 True (Fin 1) (Fin 0)) True False True)
        \<lparr>fluid := fluid0 [warm_cell] [0]\<rparr>)) = Fin (1 / 10 ^ 20) \<and>
   \<not> first_time (torch0 (fluid0 [warm_cell] [0]) (thermo0 True (Fin 1) (Fin 0)) True False False) \<and>
   activeComponents (torch0 (fluid0 [warm_cell] [0]) (thermo0 True (Fin 1) (Fin 0)) True False False)
     = run_activeComponents True False \<and>
   component_dt (ext0 (Fin 0.5) (Fin 1))
     (torch0 (fluid0 [warm_cell] [0]) (thermo0 True (Fin 1) (Fin 0)) True False False) HYDRO = Fin 0.5 \<and>
   component_dt (ext0 (Fin 0.5) (Fin 1))
     (torch0 (fluid0 [warm_cell] [0]) (thermo0 True (Fin 1) (Fin 0)) True False False) THERMO = Fin 1 \<and>
   fst (calculateTimeStep (ext0 (Fin 0.5) (Fin 1)) peers0
     (torch0 (fluid0 [warm_cell] [0]) (thermo0 True (Fin 1) (Fin 0)) True False False)) = Fin 0.5"
proof -
  let ?s = "torch0 (fluid0 [warm_cell] [0]) (thermo0 True (Fin 1) (Fin 0)) True False False"
  have th: "Thermodynamics_calculateTimeStep (thermo0 True (Fin 1) (Fin 0)) (Fin 1)
      (fluid0 [warm_cell] [0]) = Fin 1"
    by (simp add: Thermodynamics_calculateTimeStep_def deq_def fluid0_def thermo0_def
        warm_cell_def cell0_def)
  have dts: "component_dt (ext0 (Fin 0.5) (Fin 1)) ?s HYDRO = Fin 0.5"
    "component_dt (ext0 (Fin 0.5) (Fin 1)) ?s THERMO = Fin 1"
    using th by (simp_all add: component_dt_def ext0_def torch0_def)
  have later: "fst (calculateTimeStep (ext0 (Fin 0.5) (Fin 1)) peers0 ?s) = Fin 0.5"
    using th
    by (simp add: calculateTimeStep_def ext0_def torch0_def peers0_def minimum_def dmin_def Let_def)
  show ?thesis
    using dts later
      calculateTimeStep_bootstrap
        [of "torch0 (fluid0 [cell0] [0]) (thermo0 True (Fin 1) (Fin 0)) True False True"
            "ext0 (Fin 0.5) (Fin 1)" peers0 "fluid0 [warm_cell] [0]"]
      calculateTimeStep_bootstrap [of ?s "ext0 (Fin 0.5) (Fin 1)" peers0 "fluid0 [warm_cell] [0]"]
    by (simp add: torch0_def peers0_def minimum_def)
qed

section \<open>The guard on small timesteps\<close>

text \<open>With the debug mode on, a call after the first sets the quit flag exactly when the
  reduced ratio of the hydrodynamics is at most \<^verbatim>\<open>1e-6\<close> (or the flag was set).\<close>

lemma calculateTimeStep_guard:
  assumes "\<not> first_time s" and "debug s"
  shows "m_isQuitting (snd (calculateTimeStep ext peers s)) =
     (m_isQuitting s \<or>
      minimum (peer_thyd peers) (Fin 100 * hydro_calculateTimeStep ext (dt_max s) (fluid s) / tmax s)
        \<le> Fin (1 / 10 ^ 6))"
  using assms by (simp add: calculateTimeStep_def Let_def split_beta)

text \<open>
  Claim C1, at a state where the code departs from it.  The debug mode and the cooling
  are on, the call is not the first one, \<^verbatim>\<open>tmax\<close> is 1, the hydrodynamics asks for a
  timestep of 1 and the thermodynamics for \<open>2\<^sup>-\<^sup>3\<^sup>0\<close>, so that its ratio to \<^verbatim>\<open>tmax\<close> and
  even the percentage \<^verbatim>\<open>ttherm\<close> that the code compares are below \<^verbatim>\<open>1e-6\<close>.  The call
  returns \<open>2\<^sup>-\<^sup>3\<^sup>0\<close>, does not set the quit flag and sends nothing to the logger.
\<close>

theorem calculateTimeStep_guard_misses_thermo:
  "debug (torch0 (fluid0 [stiff_cell] [0]) (thermo0 True (Fin 1) (Fin 0)) True False False) \<and>
   \<not> first_time (torch0 (fluid0 [stiff_cell] [0]) (thermo0 True (Fin 1) (Fin 0)) True False False) \<and>
   component_dt (ext0 (Fin 1) (Fin 1))
     (torch0 (fluid0 [stiff_cell] [0]) (thermo0 True (Fin 1) (Fin 0)) True False False) HYDRO
     = Fin 1 \<and>
   component_dt (ext0 (Fin 1) (Fin 1))
     (torch0 (fluid0 [stiff_cell] [0]) (thermo0 True (Fin 1) (Fin 0)) True False False) THERMO
     = Fin (1 / 2 ^ 30) \<and>
   Fin (1 / 2 ^ 30) / tmax (torch0 (fluid0 [stiff_cell] [0]) (thermo0 True (Fin 1) (Fin 0)) True False False)
     < Fin (1 / 10 ^ 6) \<and>
   Fin 100 * Fin (1 / 2 ^ 30)
       / tmax (torch0 (fluid0 [stiff_cell] [0]) (thermo0 True (Fin 1) (Fin 0)) True False False)
     \<le> Fin (1 / 10 ^ 6) \<and>
   fst (calculateTimeStep (ext0 (Fin 1) (Fin 1)) peers0
     (torch0 (fluid0 [stiff_cell] [0]) (thermo0 True (Fin 1) (Fin 0)) True False False))
     = Fin (1 / 2 ^ 30) \<and>
   m_isQuitting (snd (calculateTimeStep (ext0 (Fin 1) (Fin 1)) peers0
     (torch0 (fluid0 [stiff_cell] [0]) (thermo0 True (Fin 1) (Fin 0)) True False False)))
     = False \<and>
   logger (snd (calculateTimeStep (ext0 (Fin 1) (Fin 1)) peers0
     (torch0 (fluid0 [stiff_cell] [0]) (thermo0 True (Fin 1) (Fin 0)) True False False)))
     = []"
proof -
  have th: "Thermodynamics_calculateTimeStep (thermo0 True (Fin 1) (Fin 0)) (Fin 1)
      (fluid0 [stiff_cell] [0]) = Fin (1 / 2 ^ 30)"
    by (simp add: Thermodynamics_calculateTimeStep_def deq_def fluid0_def thermo0_def
        stiff_cell_def cell0_def)
  show ?thesis
    using th
    by (simp add: calculateTimeStep_def component_dt_def ext0_def torch0_def peers0_def
        minimum_def dmin_def Let_def)
qed

section \<open>The check of the cell values\<close>

lemma UID_all_complete: "i \<in> set UID_all"
  by (cases i) (simp_all add: UID_all_def)

lemma cellHasError_iff:
  "cellHasError c =
     ((\<exists>i. isnan (U c i) \<or> isinf (U c i)) \<or> deq (Q c DEN) (Fin 0) \<or> deq (Q c PRE) (Fin 0))"
proof -
  have "(\<not> deq x x) = isnan x" for x
    by (cases x) (simp_all add: deq_def)
  then show ?thesis
    using UID_all_complete by (auto simp: cellHasError_def list_ex_iff)
qed

text \<open>The version of part 000 ends the run with an exception as soon as a cell of
  \<^verbatim>\<open>GridCells\<close> holds a NaN, an infinity, a zero density or a zero pressure.\<close>

lemma checkValues_fatal:
  assumes "j \<in> set (GridCells (grid fl))"
    and "isnan (U (cells (grid fl) ! j) i) \<or> isinf (U (cells (grid fl) ! j) i) \<or>
         Q (cells (grid fl) ! j) DEN = Fin 0 \<or> Q (cells (grid fl) ! j) PRE = Fin 0"
  shows "\<exists>msg dumped. checkValues componentname fl = Inl (RuntimeError msg dumped)"
proof -
  have "cellHasError (cells (grid fl) ! j)"
    using assms(2) by (auto simp: cellHasError_iff deq_def)
  then show ?thesis
    using assms(1) by (auto simp: checkValues_def Let_def list_ex_iff)
qed

text \<open>The version of part 001 ends the run with the exit status 0 in that case.\<close>

lemma checkValues_part_001_exit:
  assumes "j < length (cells (grid fl))"
    and "isnan (U (cells (grid fl) ! j) i) \<or> isinf (U (cells (grid fl) ! j) i) \<or>
         Q (cells (grid fl) ! j) DEN = Fin 0 \<or> Q (cells (grid fl) ! j) PRE = Fin 0"
  shows "\<exists>out dumped. checkValues_part_001 componentname fl = Inl (ProcessExit 0 out dumped)"
proof -
  have "cellHasError (cells (grid fl) ! j)"
    using assms(2) by (auto simp: cellHasError_iff deq_def)
  then show ?thesis
    using assms(1) by (auto simp: checkValues_part_001_def Let_def list_ex_iff)
qed

text \<open>
  Claim C2, at a state where the code of part 001 departs from it.  The one cell of the
  grid holds a NaN in \<^verbatim>\<open>U\<close> and a first velocity component beyond \<^verbatim>\<open>1e50\<close>.  The cell is
  dumped with the component name, and the run ends with \<^verbatim>\<open>exit(0)\<close>: the exit status is
  zero.  The version of part 000 throws a \<^verbatim>\<open>std::runtime_error\<close> with the same line.
\<close>

theorem checkValues_part_001_exit_status:
  "isnan (U (cells (grid (fluid0 [broken_cell] [0])) ! 0) VEL0) \<and>
   checkValues_part_001 ''Hydrodynamics after'' (fluid0 [broken_cell] [0]) =
     Inl (ProcessExit 0
            ([CHR 0x0A] @ ''Hydrodynamics after produced an error.'' @ [CHR 0x0A]) [0]) \<and>
   checkValues ''Hydrodynamics after'' (fluid0 [broken_cell] [0]) =
     Inl (RuntimeError
            ([CHR 0x0A] @ ''Hydrodynamics after produced an error.'' @ [CHR 0x0A, CHR 0x0A]) [0])"
  by (simp add: checkValues_part_001_def checkValues_def cellHasError_def UID_all_def
      dumpedCells_def errorLines_def deq_def fluid0_def broken_cell_def cell0_def)

section \<open>The sweep of the composite stepper\<close>

lemma subStep_frame:
  "subStep ext dt h c s = Inr s' \<Longrightarrow>
   activeComponents s' = activeComponents s \<and> stepCounter s' = stepCounter s"
  by (auto simp: subStep_def Let_def split: sum.splits)

lemma subSteps_append:
  "subSteps ext (xs @ ys) s =
     (case subSteps ext xs s of Inl e \<Rightarrow> Inl e | Inr s' \<Rightarrow> subSteps ext ys s')"
  by (induction xs arbitrary: s) (auto split: sum.splits)

lemma subSteps_frame:
  "subSteps ext xs s = Inr s' \<Longrightarrow>
   activeComponents s' = activeComponents s \<and> stepCounter s' = stepCounter s"
proof (induction xs arbitrary: s)
  case Nil
  then show ?case by simp
next
  case (Cons x xs)
  obtain dt h c where x: "x = (dt, h, c)" by (cases x)
  from Cons.prems obtain s1 where s1: "subStep ext dt h c s = Inr s1"
    and rest: "subSteps ext xs s1 = Inr s'"
    by (auto simp: x split: sum.splits)
  show ?case
    using Cons.IH [OF rest] subStep_frame [OF s1] by simp
qed

lemma calculateTimeStep_frame:
  "activeComponents (snd (calculateTimeStep ext peers s)) = activeComponents s \<and>
   stepCounter (snd (calculateTimeStep ext peers s)) = stepCounter s"
  by (simp add: calculateTimeStep_def Let_def split_beta)

lemma fullStep_begin_frame:
  "activeComponents (snd (fullStep_begin ext peers dtc s)) = activeComponents s \<and>
   stepCounter (snd (fullStep_begin ext peers dtc s)) = stepCounter s"
  by (simp add: fullStep_begin_def Let_def split_beta calculateTimeStep_frame)

lemma c_rem_nonneg: "0 \<le> a \<Longrightarrow> 0 < b \<Longrightarrow> c_rem a b = a mod b"
  by (cases "a = 0") (simp_all add: c_rem_def)

lemma activeComponent_rotated:
  assumes "activeComponents s = A" and "stepCounter s = int c" and "0 < length A"
  shows "activeComponent s (c_rem (int k + stepCounter s) (int (length A)))
           = Some (A ! ((k + c) mod length A))"
proof -
  have r: "c_rem (int k + int c) (int (length A)) = int ((k + c) mod length A)"
    using assms(3) by (simp add: c_rem_nonneg zmod_int)
  show ?thesis
    using assms by (simp add: r activeComponent_def)
qed

text \<open>The sub-step that the forward pass makes for \<open>i = k\<close> and the one that the reverse
  pass makes.\<close>

lemma forwardPass_subSteps:
  assumes "activeComponents s = A" and "stepCounter s = int c" and "k \<le> length A"
  shows "forwardPass ext dt (int (length A)) (int k) s =
     subSteps ext
       (map (\<lambda>i. ((if i = length A - 1 then Fin 1.0 else Fin 0.5) * dt, i = 0,
                   A ! ((i + c) mod length A))) [k ..< length A]) s"
  using assms
proof (induction "length A - k" arbitrary: k s)
  case 0
  then have "k = length A" by simp
  then show ?case by (simp add: forwardPass.simps [of _ _ _ "int (length A)"])
next
  case (Suc m)
  then have lt: "k < length A" by simp
  have last: "(int k = int (length A) - 1) = (k = length A - 1)"
    using lt by auto
  have cmpt: "activeComponent s (c_rem (int k + stepCounter s) (int (length A)))
      = Some (A ! ((k + c) mod length A))"
    using Suc.prems lt by (intro activeComponent_rotated) auto
  have step: "forwardPass ext dt (int (length A)) (int k + 1) s' =
     subSteps ext
       (map (\<lambda>i. ((if i = length A - 1 then Fin 1.0 else Fin 0.5) * dt, i = 0,
                   A ! ((i + c) mod length A))) [Suc k ..< length A]) s'"
    if "subStep ext d h x s = Inr s'" for d h x s'
  proof -
    have "forwardPass ext dt (int (length A)) (int (Suc k)) s' =
     subSteps ext
       (map (\<lambda>i. ((if i = length A - 1 then Fin 1.0 else Fin 0.5) * dt, i = 0,
                   A ! ((i + c) mod length A))) [Suc k ..< length A]) s'"
      using Suc.hyps(2) Suc.prems lt subStep_frame [OF that]
      by (intro Suc.hyps(1)) simp_all
    then show ?thesis by (simp add: add.commute)
  qed
  have unfold: "[k ..< length A] = k # [Suc k ..< length A]"
    using lt by (simp add: upt_conv_Cons)
  let ?f = "\<lambda>i. ((if i = length A - 1 then Fin 1.0 else Fin 0.5) * dt, i = 0,
                   A ! ((i + c) mod length A))"
  define d0 where "d0 = (if k = length A - 1 then Fin 1.0 else Fin 0.5) * dt"
  define x0 where "x0 = A ! ((k + c) mod length A)"
  have head: "?f k = (d0, k = 0, x0)"
    by (simp add: d0_def x0_def)
  have "forwardPass ext dt (int (length A)) (int k) s =
      (case subStep ext d0 (k = 0) x0 s of
         Inl e \<Rightarrow> Inl e
       | Inr s' \<Rightarrow> forwardPass ext dt (int (length A)) (int k + 1) s')"
    using lt by (subst forwardPass.simps) (simp add: Let_def cmpt last d0_def x0_def)
  also have "\<dots> =
      (case subStep ext d0 (k = 0) x0 s of
         Inl e \<Rightarrow> Inl e
       | Inr s' \<Rightarrow> subSteps ext (map ?f [Suc k ..< length A]) s')"
  proof (cases "subStep ext d0 (k = 0) x0 s")
    case (Inl e)
    then show ?thesis by (simp only: sum.case)
  next
    case (Inr s')
    show ?thesis by (simp only: Inr sum.case step [OF Inr])
  qed
  also have "\<dots> = subSteps ext (map ?f [k ..< length A]) s"
    by (simp only: unfold list.map head subSteps.simps)
  finally show ?case .
qed

lemma reversePass_subSteps:
  assumes "activeComponents s = A" and "stepCounter s = int c" and "0 < length A"
  shows "reversePass ext dt (int (length A)) (int k - 1) s =
     subSteps ext
       (map (\<lambda>i. (dt / Fin 2.0, False, A ! ((i + c) mod length A))) (rev [0 ..< k])) s"
  using assms
proof (induction k arbitrary: s)
  case 0
  then show ?case by (simp add: reversePass.simps [of _ _ _ "- 1"])
next
  case (Suc k)
  have cmpt: "activeComponent s (c_rem (int k + stepCounter s) (int (length A)))
      = Some (A ! ((k + c) mod length A))"
    using Suc.prems by (intro activeComponent_rotated) simp_all
  have step: "reversePass ext dt (int (length A)) (int k - 1) s' =
     subSteps ext
       (map (\<lambda>i. (dt / Fin 2.0, False, A ! ((i + c) mod length A))) (rev [0 ..< k])) s'"
    if "subStep ext d h x s = Inr s'" for d h x s'
    using Suc.prems subStep_frame [OF that] by (intro Suc.IH) simp_all
  have idx: "int (Suc k) - 1 = int k" by simp
  let ?g = "\<lambda>i. (dt / Fin 2.0, False, A ! ((i + c) mod length A))"
  define d0 where "d0 = dt / Fin 2.0"
  define x0 where "x0 = A ! ((k + c) mod length A)"
  have head: "?g k = (d0, False, x0)"
    by (simp add: d0_def x0_def)
  have "reversePass ext dt (int (length A)) (int (Suc k) - 1) s =
      (case subStep ext d0 False x0 s of
         Inl e \<Rightarrow> Inl e
       | Inr s' \<Rightarrow> reversePass ext dt (int (length A)) (int k - 1) s')"
    unfolding idx by (subst reversePass.simps) (simp add: cmpt d0_def x0_def)
  also have "\<dots> =
      (case subStep ext d0 False x0 s of
         Inl e \<Rightarrow> Inl e
       | Inr s' \<Rightarrow> subSteps ext (map ?g (rev [0 ..< k])) s')"
  proof (cases "subStep ext d0 False x0 s")
    case (Inl e)
    then show ?thesis by (simp only: sum.case)
  next
    case (Inr s')
    show ?thesis by (simp only: Inr sum.case step [OF Inr])
  qed
  also have "\<dots> = subSteps ext (map ?g (rev [0 ..< Suc k])) s"
    by (simp only: upt_Suc_append [OF le0] rev_append rev.simps append.simps list.map head
        subSteps.simps)
  finally show ?case .
qed


lemma sweep_spec_weights:
  assumes "0 < length A"
  shows "map fst (sweep_spec A c dt) =
     replicate (length A - 1) (dt / Fin 2) @ dt # replicate (length A - 1) (dt / Fin 2)"
proof -
  let ?n = "length A"
  have upt_last: "[0 ..< ?n] = [0 ..< ?n - 1] @ [?n - 1]"
    using assms by (metis Suc_diff_1 upt_Suc_append zero_le)
  have fwd: "map (\<lambda>i. if i = ?n - 1 then dt else dt / Fin 2) [0 ..< ?n - 1]
      = replicate (?n - 1) (dt / Fin 2)"
  proof -
    have "map (\<lambda>i. if i = ?n - 1 then dt else dt / Fin 2) [0 ..< ?n - 1]
        = map (\<lambda>i. dt / Fin 2) [0 ..< ?n - 1]"
      by (rule map_cong) auto
    then show ?thesis by (simp add: map_replicate_const)
  qed
  have rvs: "map (\<lambda>i. dt / Fin 2) (rev [0 ..< ?n - 1]) = replicate (?n - 1) (dt / Fin 2)"
    by (simp add: map_replicate_const)
  have "map fst (sweep_spec A c dt) =
      map (\<lambda>i. if i = ?n - 1 then dt else dt / Fin 2) [0 ..< ?n]
        @ map (\<lambda>i. dt / Fin 2) (rev [0 ..< ?n - 1])"
    by (simp add: sweep_spec_def Let_def comp_def)
  also have "\<dots> = replicate (?n - 1) (dt / Fin 2) @ dt # replicate (?n - 1) (dt / Fin 2)"
    by (subst upt_last) (simp only: map_append list.map fwd rvs append.simps append_assoc refl if_True)
  finally show ?thesis .
qed


lemma sweep_spec_flags:
  assumes "0 < length A"
  shows "map (fst \<circ> snd) (sweep_spec A c dt) = True # replicate (2 * length A - 2) False"
proof -
  let ?n = "length A"
  have upt_first: "[0 ..< ?n] = 0 # [1 ..< ?n]"
    using assms by (simp add: upt_conv_Cons)
  have "map (\<lambda>i. i = 0) [1 ..< ?n] = map (\<lambda>i. False) [1 ..< ?n]"
    by (rule map_cong) auto
  then have rest: "map (\<lambda>i. i = 0) [1 ..< ?n] = replicate (?n - 1) False"
    by (simp add: map_replicate_const)
  have "map (fst \<circ> snd) (sweep_spec A c dt) =
      map (\<lambda>i. i = 0) [0 ..< ?n] @ map (\<lambda>i. False) (rev [0 ..< ?n - 1])"
    by (simp add: sweep_spec_def Let_def comp_def)
  also have "\<dots> = True # replicate (?n - 1) False @ replicate (?n - 1) False"
    by (subst upt_first) (simp only: list.map rest map_replicate_const length_rev length_upt
        diff_zero append.simps refl simp_thms)
  also have "\<dots> = True # replicate (2 * ?n - 2) False"
    using assms by (simp add: replicate_add [symmetric] mult_2)
  finally show ?thesis .
qed

lemma sweep_spec_components:
  "map (snd \<circ> snd) (sweep_spec A c dt) =
     map (\<lambda>i. A ! ((i + c) mod length A)) ([0 ..< length A] @ rev [0 ..< length A - 1])"
  by (simp add: sweep_spec_def Let_def comp_def)

lemma sweep_spec_code:
  "sweep_spec A c dt =
     map (\<lambda>i. ((if i = length A - 1 then Fin 1.0 else Fin 0.5) * dt, i = 0,
                 A ! ((i + c) mod length A))) [0 ..< length A]
     @ map (\<lambda>i. (dt / Fin 2.0, False, A ! ((i + c) mod length A))) (rev [0 ..< length A - 1])"
proof -
  have "(if i = length A - 1 then Fin 1.0 else Fin 0.5) * dt
      = (if i = length A - 1 then dt else dt / Fin 2)" for i :: nat
    using double_mul_one_left [of dt] double_half_mul [of dt] by simp
  then show ?thesis
    by (simp add: sweep_spec_def Let_def)
qed

text \<open>
  Claim C4.  With \<open>n \<ge> 2\<close> active components (and a step counter that is not negative),
  \<open>fullStep\<close> advances the step counter to \<open>c = (stepCounter + 1) mod n\<close> and then runs
  the sub-steps of \<open>sweep_spec\<close> in their order, up to the first that fails: they are
  \<open>2n - 1\<close>; their timesteps are \<open>n - 1\<close> times \<open>dt / 2\<close>, then \<open>dt\<close>, then \<open>n - 1\<close> times
  \<open>dt / 2\<close>; only the first has the flag \<^verbatim>\<open>hasCalculatedHeatFlux\<close>, which skips the
  recomputation of \<^verbatim>\<open>Q\<close> from \<^verbatim>\<open>U\<close>; and they visit the components
  \<open>active[(i + c) mod n]\<close> for \<open>i = 0, \<dots>, n - 1\<close> and back for \<open>i = n - 2, \<dots>, 0\<close>.
\<close>

theorem fullStep_sweep:
  assumes "2 \<le> length (activeComponents s)" and "0 \<le> stepCounter s"
  shows "(let (dt, s1) = fullStep_begin ext peers dt_nextCheckPoint s;
              n = length (activeComponents s);
              c = nat ((stepCounter s + 1) mod int n);
              sched = sweep_spec (activeComponents s) c dt
          in fullStep ext peers dt_nextCheckPoint s =
               (case subSteps ext sched (s1\<lparr>stepCounter := int c\<rparr>) of
                  Inl e \<Rightarrow> Inl e
                | Inr s' \<Rightarrow> Inr (dt, s')) \<and>
             length sched = 2 * n - 1 \<and>
             map fst sched = replicate (n - 1) (dt / Fin 2) @ dt # replicate (n - 1) (dt / Fin 2) \<and>
             map (fst \<circ> snd) sched = True # replicate (2 * n - 2) False \<and>
             map (snd \<circ> snd) sched =
               map (\<lambda>i. activeComponents s ! ((i + c) mod n)) ([0 ..< n] @ rev [0 ..< n - 1]))"
proof -
  let ?A = "activeComponents s"
  let ?n = "length ?A"
  obtain dt s1 where start: "fullStep_begin ext peers dt_nextCheckPoint s = (dt, s1)"
    by (cases "fullStep_begin ext peers dt_nextCheckPoint s")
  define c where "c = nat ((stepCounter s + 1) mod int ?n)"
  define s2 where "s2 = s1\<lparr>stepCounter := int c\<rparr>"
  let ?fw = "map (\<lambda>i. ((if i = ?n - 1 then Fin 1.0 else Fin 0.5) * dt, i = 0,
                 ?A ! ((i + c) mod ?n))) [0 ..< ?n]"
  let ?rv = "map (\<lambda>i. (dt / Fin 2.0, False, ?A ! ((i + c) mod ?n))) (rev [0 ..< ?n - 1])"
  have pos: "0 < ?n" using assms(1) by linarith
  have frame1: "activeComponents s1 = ?A" "stepCounter s1 = stepCounter s"
    using fullStep_begin_frame [of ext peers dt_nextCheckPoint s] by (simp_all add: start)
  have cnt: "c_rem (stepCounter s1 + 1) (int ?n) = int c"
    using assms(2) pos by (simp add: frame1 c_def c_rem_nonneg)
  have frame2: "activeComponents s2 = ?A" "stepCounter s2 = int c"
    by (simp_all add: s2_def frame1)
  have fw: "forwardPass ext dt (int ?n) 0 s2 = subSteps ext ?fw s2"
    using forwardPass_subSteps [OF frame2, of 0 ext dt] by simp
  have rv: "reversePass ext dt (int ?n) (int ?n - 2) s3 = subSteps ext ?rv s3"
    if "subSteps ext ?fw s2 = Inr s3" for s3
  proof -
    have f3: "activeComponents s3 = ?A" "stepCounter s3 = int c"
      using conjunct1 [OF subSteps_frame [OF that]] conjunct2 [OF subSteps_frame [OF that]]
      by (simp_all only: frame2)
    have idx: "int ?n - 2 = int (?n - 1) - 1" using pos by linarith
    show ?thesis
      unfolding idx by (rule reversePass_subSteps [OF f3 pos])
  qed
  have n1: "int ?n \<noteq> 1" "int ?n \<noteq> 0"
    using assms(1) by linarith+
  have loops: "fullStep ext peers dt_nextCheckPoint s =
      (case forwardPass ext dt (int ?n) 0 s2 of
         Inl e \<Rightarrow> Inl e
       | Inr s3 \<Rightarrow>
           (case reversePass ext dt (int ?n) (int ?n - 2) s3 of
              Inl e \<Rightarrow> Inl e
            | Inr s4 \<Rightarrow> Inr (dt, s4)))"
    unfolding fullStep_def start s2_def
    by (simp only: Let_def prod.case frame1 cnt [unfolded frame1] n1 if_False)
  have main: "fullStep ext peers dt_nextCheckPoint s =
      (case subSteps ext (sweep_spec ?A c dt) s2 of Inl e \<Rightarrow> Inl e | Inr s' \<Rightarrow> Inr (dt, s'))"
  proof (cases "subSteps ext ?fw s2")
    case (Inl e)
    show ?thesis
      by (simp only: loops fw sweep_spec_code subSteps_append Inl sum.case)
  next
    case (Inr s3)
    show ?thesis
      by (simp only: loops fw sweep_spec_code subSteps_append Inr sum.case rv [OF Inr])
  qed
  have len: "length (sweep_spec ?A c dt) = 2 * ?n - 1"
    using pos by (simp add: sweep_spec_def Let_def)
  show ?thesis
    unfolding start Let_def prod.case c_def [symmetric] s2_def [symmetric]
    using main len sweep_spec_weights [OF pos, of c dt] sweep_spec_flags [OF pos, of c dt]
      sweep_spec_components [of ?A c dt]
    by (intro conjI)
qed

theorem fullStep_sweep_witness:
  "2 \<le> length (activeComponents
          (torch0 (fluid0 [warm_cell] [0]) (thermo0 False (Fin 1) (Fin 1)) True False False)) \<and>
   0 \<le> stepCounter
          (torch0 (fluid0 [warm_cell] [0]) (thermo0 False (Fin 1) (Fin 1)) True False False) \<and>
   fst (fullStep_begin (ext0 (Fin 0.5) (Fin 1)) peers0 (Fin 1)
          (torch0 (fluid0 [warm_cell] [0]) (thermo0 False (Fin 1) (Fin 1)) True False False))
     = Fin 0.5 \<and>
   sweep_spec [HYDRO, THERMO] 1 (Fin 0.5) =
     [(Fin 0.25, True, THERMO), (Fin 0.5, False, HYDRO), (Fin 0.25, False, THERMO)] \<and>
   (case fullStep (ext0 (Fin 0.5) (Fin 1)) peers0 (Fin 1)
           (torch0 (fluid0 [warm_cell] [0]) (thermo0 False (Fin 1) (Fin 1)) True False False) of
      Inl e \<Rightarrow> False
    | Inr (dt, s') \<Rightarrow>
        dt = Fin 0.5 \<and> stepCounter s' = 1 \<and>
        T (cells (grid (fluid s')) ! 0) HEAT = Fin 0 \<and>
        T (cells (grid (fluid s')) ! 0) RATE = Fin 0)"
proof -
  let ?s = "torch0 (fluid0 [warm_cell] [0]) (thermo0 False (Fin 1) (Fin 1)) True False False"
  let ?e = "ext0 (Fin 0.5) (Fin 1)"
  have hyp: "2 \<le> length (activeComponents ?s)" "0 \<le> stepCounter ?s"
    by (simp_all add: torch0_def run_activeComponents_def)
  have sp: "sweep_spec [HYDRO, THERMO] 1 (Fin 0.5) =
     [(Fin 0.25, True, THERMO), (Fin 0.5, False, HYDRO), (Fin 0.25, False, THERMO)]"
    by (simp add: sweep_spec_def Let_def upt_rec)
  have frameT: "cellHasError (c\<lparr>T := t\<rparr>) = cellHasError c"
    and frameU: "cellHasError (c\<lparr>UDOT := u\<rparr>) = cellHasError c" for c t u
    by (simp_all add: cellHasError_def)
  have ok: "\<not> cellHasError warm_cell"
    by (simp add: cellHasError_def UID_all_def deq_def warm_cell_def cell0_def)
  have adv: "Q warm_cell ADV = Fin 0"
    by (simp add: warm_cell_def cell0_def)
  have start: "fullStep_begin ?e peers0 (Fin 1) ?s =
      (Fin 0.5, ?s\<lparr>fluid := (fluid0 [warm_cell\<lparr>T := (T warm_cell)(RATE := Fin 0)\<rparr>] [0])
          \<lparr>grid := (grid (fluid0 [warm_cell\<lparr>T := (T warm_cell)(RATE := Fin 0)\<rparr>] [0]))
             \<lparr>deltatime := Fin 0.5\<rparr>\<rparr>\<rparr>)"
    by (simp add: fullStep_begin_def calculateTimeStep_def preTimeStepCalculations_def
        Thermodynamics_calculateTimeStep_def forCells_def preTimeStepCalculations_cell_def adv
        Let_def deq_def dmin_def minimum_def torch0_def ext0_def peers0_def fluid0_def
        thermo0_def)
  show ?thesis
    using hyp sp fullStep_sweep [OF hyp, of ?e peers0 "Fin 1"]
    apply (simp only: start Let_def prod.case fst_conv)
    apply (simp add: torch0_def run_activeComponents_def subStep_def checkValues_def
        getComponentName_def comp_preTimeStepCalculations_def comp_integrate_def
        comp_updateSourceTerms_def preTimeStepCalculations_def integrate_def
        updateSourceTerms_def updateSourceTerms_cell_def forCells_def
        preTimeStepCalculations_cell_def adv frameT frameU ok
        Let_def ext0_def fluid0_def thermo0_def)
    done
qed

end
